theory Spec2Isabelle
  imports Main "HOL-Library.AList"
begin

section \<open>The build script \<open>build.py\<close>: data model\<close>

text \<open>
  \<open>build.py\<close> consists of one function, \<open>Main\<close>, that works on a global build context
  \<open>CTX\<close>, on the parsed command line \<open>build_args\<close> and on the file system, and that calls
  helpers of the \<open>scripts\<close> package (printer, folder removal, toolchain, plug-in manager).
  The embedding threads a state (context, file system, the sequence of helper calls made
  so far, and whether the local \<open>unity_plugin_manager\<close> is bound) through the sections of
  \<open>Main\<close> in source order; an exception ends the run and is a value.
\<close>

subsection \<open>Paths and the file system\<close>

text \<open>
  A path is the list of its components below the root; the root is \<open>[]\<close>. The file
  system is an association list from paths to node kinds whose order is the order in which
  a directory scan reports entries. A node is a folder, a regular file, or a folder that
  the user may neither search nor read (\<open>Locked\<close>).
\<close>

type_synonym path = "string list"

datatype kind = Dir | File | Locked

type_synonym fs = "(path \<times> kind) list"

text \<open>
  The exceptions of a run. \<open>OSError\<close> stands for the plain \<open>OSError\<close> that Python raises
  for a name longer than the system allows (\<open>ENAMETOOLONG\<close>).
\<close>

datatype error =
    UnboundLocalError
  | KeyError
  | FileExistsError
  | FileNotFoundError
  | NotADirectoryError
  | PermissionError
  | OSError
  | RemoveFolderError

definition NAME_MAX :: nat where
  "NAME_MAX = 255"

text \<open>
  The system call behind \<open>Path.stat()\<close> walks the path one component at a time, from the
  node \<open>cur\<close> of kind \<open>k\<close>: a component below a regular file fails with \<open>ENOTDIR\<close>, below a
  locked folder with \<open>EACCES\<close>; a missing component fails with \<open>ENAMETOOLONG\<close> when it is
  longer than \<open>NAME_MAX\<close> and with \<open>ENOENT\<close> otherwise.
\<close>

fun resolve :: "fs \<Rightarrow> path \<Rightarrow> kind \<Rightarrow> path \<Rightarrow> error + kind" where
  "resolve d cur k [] = Inr k"
| "resolve d cur k (c # cs) =
     (case k of
        File \<Rightarrow> Inl NotADirectoryError
      | Locked \<Rightarrow> Inl PermissionError
      | Dir \<Rightarrow>
          (case map_of d (cur @ [c]) of
             Some k' \<Rightarrow> resolve d (cur @ [c]) k' cs
           | None \<Rightarrow> if length c > NAME_MAX then Inl OSError else Inl FileNotFoundError))"

definition stat :: "fs \<Rightarrow> path \<Rightarrow> error + kind" where
  "stat d p = resolve d [] Dir p"

text \<open>
  \<open>Path.exists()\<close> and \<open>Path.is_dir()\<close> call \<open>stat\<close> and return \<open>False\<close> for the errors that
  \<open>pathlib\<close> ignores (\<open>ENOENT\<close>, \<open>ENOTDIR\<close>); every other error is raised again.
\<close>

definition ignore_error :: "error \<Rightarrow> bool" where
  "ignore_error err = (err = FileNotFoundError \<or> err = NotADirectoryError)"

definition exists :: "fs \<Rightarrow> path \<Rightarrow> error + bool" where
  "exists d p =
     (case stat d p of
        Inr k \<Rightarrow> Inr True
      | Inl err \<Rightarrow> if ignore_error err then Inr False else Inl err)"

definition is_dir :: "fs \<Rightarrow> path \<Rightarrow> error + bool" where
  "is_dir d p =
     (case stat d p of
        Inr k \<Rightarrow> Inr (k \<noteq> File)
      | Inl err \<Rightarrow> if ignore_error err then Inr False else Inl err)"

definition joinpath :: "path \<Rightarrow> string \<Rightarrow> path" where
  "joinpath p n = p @ [n]"

definition name :: "path \<Rightarrow> string" where
  "name p = (if p = [] then [] else last p)"

definition path_str :: "path \<Rightarrow> string" where
  "path_str p = (if p = [] then ''/'' else concat (map (\<lambda>c. ''/'' @ c) p))"

text \<open>
  \<open>Path.mkdir()\<close> with its default arguments: the parent is resolved as by \<open>stat\<close> and must
  be a folder that the user may write; the path itself must not exist. The new folder is
  reported last by later scans.
\<close>

definition mkdir :: "fs \<Rightarrow> path \<Rightarrow> error + fs" where
  "mkdir d p =
     (if p = [] then Inl FileExistsError
      else (case stat d (butlast p) of
              Inl err \<Rightarrow> Inl err
            | Inr File \<Rightarrow> Inl NotADirectoryError
            | Inr Locked \<Rightarrow> Inl PermissionError
            | Inr Dir \<Rightarrow>
                if map_of d p \<noteq> None then Inl FileExistsError
                else if length (last p) > NAME_MAX then Inl OSError
                else Inr (d @ [(p, Dir)])))"

text \<open>\<open>Path.iterdir()\<close>: the entries directly below a folder, in scan order.\<close>

definition iterdir :: "fs \<Rightarrow> path \<Rightarrow> error + path list" where
  "iterdir d p =
     (case stat d p of
        Inl err \<Rightarrow> Inl err
      | Inr File \<Rightarrow> Inl NotADirectoryError
      | Inr Locked \<Rightarrow> Inl PermissionError
      | Inr Dir \<Rightarrow> Inr (filter (\<lambda>q. q \<noteq> [] \<and> butlast q = p) (map fst d)))"

subsection \<open>Identifiers of \<open>scripts.upi_cli_argument_options\<close>\<close>

text \<open>
  The classes \<open>PluginID\<close>, \<open>PlatformID\<close>, \<open>ConfigID\<close>, \<open>BuildActionID\<close> and
  \<open>CleanActionID\<close> hold the string identifiers that \<open>Main\<close> compares tokens with. Their
  values are parameters of the embedding.
\<close>

record ids =
  PluginID_ACCESSIBILITY :: string
  PluginID_CORE :: string
  PluginID_CORE_HAPTICS :: string
  PluginID_GAME_CONTROLLER :: string
  PluginID_GAME_KIT :: string
  PluginID_PHASE :: string
  PluginID_ALL :: string
  PlatformID_IOS :: string
  PlatformID_MACOS :: string
  PlatformID_TVOS :: string
  PlatformID_ALL :: string
  ConfigID_DEBUG :: string
  ConfigID_RELEASE :: string
  BuildActionID_BUILD :: string
  BuildActionID_PACK :: string
  BuildActionID_NONE :: string
  BuildActionID_ALL :: string
  CleanActionID_NATIVE :: string
  CleanActionID_PACKAGES :: string
  CleanActionID_TESTS :: string
  CleanActionID_NONE :: string
  CleanActionID_ALL :: string

text \<open>
  Modelled from the spec: the values of the identifiers of
  \<open>scripts/upi_cli_argument_options.py\<close>, which the specification writes as \<open>build\<close>,
  \<open>pack\<close>, \<open>packages\<close>, \<open>tests\<close>, \<open>accessibility\<close>, \<open>core\<close>, \<open>ALL\<close> and \<open>NONE\<close>.
  Used for concrete runs only.
\<close>

definition spec_ids :: ids where
  "spec_ids = \<lparr>
     PluginID_ACCESSIBILITY = ''accessibility'',
     PluginID_CORE = ''core'',
     PluginID_CORE_HAPTICS = ''corehaptics'',
     PluginID_GAME_CONTROLLER = ''gamecontroller'',
     PluginID_GAME_KIT = ''gamekit'',
     PluginID_PHASE = ''phase'',
     PluginID_ALL = ''ALL'',
     PlatformID_IOS = ''ios'',
     PlatformID_MACOS = ''macos'',
     PlatformID_TVOS = ''tvos'',
     PlatformID_ALL = ''ALL'',
     ConfigID_DEBUG = ''debug'',
     ConfigID_RELEASE = ''release'',
     BuildActionID_BUILD = ''build'',
     BuildActionID_PACK = ''pack'',
     BuildActionID_NONE = ''NONE'',
     BuildActionID_ALL = ''ALL'',
     CleanActionID_NATIVE = ''native'',
     CleanActionID_PACKAGES = ''packages'',
     CleanActionID_TESTS = ''tests'',
     CleanActionID_NONE = ''NONE'',
     CleanActionID_ALL = ''ALL'' \<rparr>"

subsection \<open>Dictionaries from identifiers to booleans\<close>

text \<open>
  A Python \<open>dict\<close> keeps insertion order and \<open>d[k] = v\<close> keeps the position of an existing
  key: an association list with \<open>AList.update\<close>.
\<close>

type_synonym selection = "(string \<times> bool) list"

definition dict :: "(string \<times> bool) list \<Rightarrow> selection" where
  "dict kvs = foldl (\<lambda>d (k, v). AList.update k v d) [] kvs"

definition keys :: "selection \<Rightarrow> string list" where
  "keys d = map fst d"

definition contains :: "selection \<Rightarrow> string \<Rightarrow> bool" where
  "contains d k = (k \<in> set (keys d))"

definition setitem :: "selection \<Rightarrow> string \<Rightarrow> bool \<Rightarrow> selection" where
  "setitem d k v = AList.update k v d"

definition getitem :: "selection \<Rightarrow> string \<Rightarrow> error + bool" where
  "getitem d k = (case map_of d k of None \<Rightarrow> Inl KeyError | Some b \<Rightarrow> Inr b)"

text \<open>The loop \<open>for key in d.keys(): d[key] = v\<close>.\<close>

definition set_all :: "selection \<Rightarrow> bool \<Rightarrow> selection" where
  "set_all d v = fold (\<lambda>k acc. setitem acc k v) (keys d) d"

text \<open>Every member of a selection has the value \<open>v\<close>.\<close>

definition every_member :: "selection \<Rightarrow> bool \<Rightarrow> bool" where
  "every_member d v = list_all (\<lambda>k. map_of d k = Some v) (keys d)"

subsection \<open>Command line, build context, helper calls\<close>

text \<open>
  The fields of \<open>build_args\<close> carry the prefix \<open>args_\<close>, since several have the name of a
  field of the context. Path arguments are given as parsed paths.
\<close>

record build_args =
  args_plugin_list :: "string list"
  args_platform_list :: "string list"
  args_build_actions :: "string list"
  args_simulator_build :: bool
  args_codesign_identity :: string
  args_skip_codesign :: bool
  args_unity_installation_root :: path
  args_debug :: bool
  args_output_path :: path
  args_clean_actions :: "string list"
  args_force_clean :: bool
  args_build_tests :: bool
  args_test_output_path :: path

text \<open>The attributes of \<open>BuildContext\<close> that \<open>Main\<close> reads or writes.\<close>

record build_context =
  build_actions :: selection
  platforms :: selection
  simulator_build :: bool
  plugins :: selection
  build_tests :: bool
  clean_actions :: selection
  unity_install_root :: path
  build_path :: path
  plugin_root :: path
  test_build_root :: path
  test_build_output_path :: path
  build_config :: string
  codesign_hash :: string

text \<open>
  What \<open>Main\<close> prints with \<open>print\<close>: the banner, the option summary and its two conditional
  lines. Their text is terminal formatting and is not modelled.
\<close>

datatype printed = Banner | OptionSummary | CodesignIdentityLine | TestOutputPathLine

text \<open>
  One event per helper call, with the arguments that \<open>Main\<close> computes. The printer
  methods' optional prefix argument (a newline) is left out. \<open>utility_WarningMessage\<close> is
  the module-level \<open>utility.WarningMessage\<close> that line 201 calls where the other axes call
  the printer's \<open>WarningMessage\<close>; like the printer's methods it is taken to return.
\<close>

datatype event =
    Print printed
  | SectionHeading string
  | WarningMessage string
  | utility_WarningMessage string
  | InfoMessage string
  | StatusMessage string
  | StatusMessageWithContext string string
  | Message string
  | MessageWithContext string string
  | RemoveFolder path bool
  | GetToolchainVersions
  | PromptForCodesignIdentity
  | NativeUnityPluginManager
  | ScanForUnityInstallations
  | ProcessNativeUnityPlugin path
  | ValidateProjectVersions
  | BuildTests
  | GeneratePlugInPackages

record datetime =
  year :: nat
  month :: nat
  day :: nat
  hour :: nat
  minute :: nat
  second :: nat

text \<open>
  What the helpers and the clock return. The printer, toolchain and plug-in manager
  helpers are taken to return normally and to leave the modelled directories alone;
  \<open>utility.RemoveFolder\<close> is a function on the file system that may raise.
\<close>

record env =
  ID :: ids
  Printer_Bold :: "string \<Rightarrow> string"
  toolchain_versions :: "string \<times> string"
  prompted_identity :: string
  remove_folder :: "path \<Rightarrow> bool \<Rightarrow> fs \<Rightarrow> error + fs"
  datetime_now :: datetime

record state =
  CTX :: build_context
  disk :: fs
  trace :: "event list"
  unity_plugin_manager :: bool

datatype outcome = Returned state | Raised error state

definition emit :: "event \<Rightarrow> state \<Rightarrow> state" where
  "emit e st = st\<lparr>trace := trace st @ [e]\<rparr>"

definition seq :: "outcome \<Rightarrow> (state \<Rightarrow> outcome) \<Rightarrow> outcome" where
  "seq r f = (case r of Returned st \<Rightarrow> f st | Raised e st \<Rightarrow> Raised e st)"

definition final_state :: "outcome \<Rightarrow> state" where
  "final_state r = (case r of Returned st \<Rightarrow> st | Raised e st \<Rightarrow> st)"

definition apostrophe :: string where
  "apostrophe = [CHR 0x27]"

subsection \<open>The invocation time string\<close>

definition digit :: "nat \<Rightarrow> char" where
  "digit n = ''0123456789'' ! (n mod 10)"

definition digits2 :: "nat \<Rightarrow> string" where
  "digits2 n = [digit (n div 10), digit n]"

definition digits4 :: "nat \<Rightarrow> string" where
  "digits4 n = [digit (n div 1000), digit (n div 100), digit (n div 10), digit n]"

text \<open>\<open>strftime("%Y-%m-%d_%H-%M-%S")\<close>, for a year of four digits.\<close>

definition strftime :: "datetime \<Rightarrow> string" where
  "strftime t =
     digits4 (year t) @ ''-'' @ digits2 (month t) @ ''-'' @ digits2 (day t) @ ''_'' @
     digits2 (hour t) @ ''-'' @ digits2 (minute t) @ ''-'' @ digits2 (second t)"

section \<open>\<open>Main\<close>, section by section\<close>

subsection \<open>Option summary (lines 94 to 119)\<close>

definition print_summary :: "build_args \<Rightarrow> state \<Rightarrow> state" where
  "print_summary args st =
     (let st = emit (Print Banner) st;
          st = emit (SectionHeading ''Command Line Option Summary'') st;
          st = emit (Print OptionSummary) st;
          st = (if \<not> args_skip_codesign args then emit (Print CodesignIdentityLine) st else st);
          st = (if args_build_tests args then emit (Print TestOutputPathLine) st else st)
      in emit (SectionHeading ''Validate Input'') st)"

subsection \<open>Build actions (lines 123 to 149)\<close>

definition unknown_build_action :: "ids \<Rightarrow> string \<Rightarrow> string" where
  "unknown_build_action i action =
     ''Ignoring unknown build action '' @ apostrophe @ action @ apostrophe @
     ''. Valid options are '' @ BuildActionID_BUILD i @ '', '' @ BuildActionID_PACK i @
     '', '' @ BuildActionID_ALL i @ '' (Default), or '' @ BuildActionID_NONE i"

fun build_actions_loop ::
  "ids \<Rightarrow> string list \<Rightarrow> selection \<Rightarrow> bool \<Rightarrow> event list \<Rightarrow> selection \<times> bool \<times> event list"
where
  "build_actions_loop i [] d found out = (d, found, out)"
| "build_actions_loop i (action # rest) d found out =
     (if contains d action then build_actions_loop i rest (setitem d action True) True out
      else if action = BuildActionID_ALL i then (set_all d True, True, out)
      else if action = BuildActionID_NONE i then (set_all d False, True, out)
      else build_actions_loop i rest d found
             (out @ [WarningMessage (unknown_build_action i action)]))"

definition empty_build_actions :: "ids \<Rightarrow> selection" where
  "empty_build_actions i = dict [(BuildActionID_BUILD i, False), (BuildActionID_PACK i, False)]"

definition resolve_build_actions :: "ids \<Rightarrow> string list \<Rightarrow> selection \<times> event list" where
  "resolve_build_actions i tokens =
     (case build_actions_loop i tokens (empty_build_actions i) False []
      of (d, valid_build_action_found, out) \<Rightarrow>
        if \<not> valid_build_action_found
        then (set_all d True,
              out @ [WarningMessage
                (''No valid build action passed to build script. Using default argument: '' @
                 BuildActionID_ALL i)])
        else (d, out))"

subsection \<open>Platforms (lines 153 to 177)\<close>

definition unknown_platform :: "ids \<Rightarrow> string \<Rightarrow> string" where
  "unknown_platform i platform_id =
     ''Ignoring unknown platform '' @ apostrophe @ platform_id @ apostrophe @
     ''. Valid options are '' @ PlatformID_IOS i @ '', '' @ PlatformID_MACOS i @
     '', '' @ PlatformID_TVOS i @ '', or '' @ PlatformID_ALL i @ '' (Default)''"

fun platforms_loop ::
  "ids \<Rightarrow> string list \<Rightarrow> selection \<Rightarrow> bool \<Rightarrow> event list \<Rightarrow> selection \<times> bool \<times> event list"
where
  "platforms_loop i [] d found out = (d, found, out)"
| "platforms_loop i (platform_id # rest) d found out =
     (if platform_id = PlatformID_ALL i then (set_all d True, True, out)
      else if contains d platform_id
        then platforms_loop i rest (setitem d platform_id True) True out
      else platforms_loop i rest d found
             (out @ [WarningMessage (unknown_platform i platform_id)]))"

definition empty_platforms :: "ids \<Rightarrow> selection" where
  "empty_platforms i =
     dict [(PlatformID_IOS i, False), (PlatformID_MACOS i, False), (PlatformID_TVOS i, False)]"

definition resolve_platforms :: "ids \<Rightarrow> string list \<Rightarrow> selection \<times> event list" where
  "resolve_platforms i tokens =
     (case platforms_loop i tokens (empty_platforms i) False []
      of (d, valid_platform_found, out) \<Rightarrow>
        if \<not> valid_platform_found
        then (set_all d True,
              out @ [WarningMessage
                (''No valid platform passed to build script. Using default argument: '' @
                 PlatformID_ALL i)])
        else (d, out))"

subsection \<open>Plug-ins and the tests flag (lines 181 to 217)\<close>

definition unknown_plugin :: "ids \<Rightarrow> string \<Rightarrow> string" where
  "unknown_plugin i plugin_id =
     ''Ignoring unknown plug-in '' @ apostrophe @ plugin_id @ apostrophe @
     ''. Valid options are '' @ PluginID_ACCESSIBILITY i @ '', '' @ PluginID_CORE i @
     '', '' @ PluginID_CORE_HAPTICS i @ '', '' @ PluginID_GAME_CONTROLLER i @
     '', '' @ PluginID_GAME_KIT i @ '', '' @ PluginID_PHASE i @
     '', or '' @ PluginID_ALL i @ '' (Default)''"

fun plugins_loop ::
  "ids \<Rightarrow> string list \<Rightarrow> selection \<Rightarrow> bool \<Rightarrow> event list \<Rightarrow> selection \<times> bool \<times> event list"
where
  "plugins_loop i [] d found out = (d, found, out)"
| "plugins_loop i (plugin_id # rest) d found out =
     (if contains d plugin_id then plugins_loop i rest (setitem d plugin_id True) True out
      else if plugin_id = PluginID_ALL i then (set_all d True, True, out)
      else plugins_loop i rest d found
             (out @ [utility_WarningMessage (unknown_plugin i plugin_id)]))"

definition empty_plugins :: "ids \<Rightarrow> selection" where
  "empty_plugins i =
     dict [(PluginID_ACCESSIBILITY i, False), (PluginID_CORE i, False),
           (PluginID_CORE_HAPTICS i, False), (PluginID_GAME_CONTROLLER i, False),
           (PluginID_GAME_KIT i, False), (PluginID_PHASE i, False)]"

definition core_not_selected :: "env \<Rightarrow> event list" where
  "core_not_selected e =
     [WarningMessage (''Build Tests('' @ Printer_Bold e ''-t'' @
        '') set to true, but Apple.Core has not been selected to process.''),
      InfoMessage ''All plug-ins are dependent upon Apple.Core, so it must be built for tests build successfully.'',
      StatusMessage ''Adding Apple.Core to selected plug-ins.'']"

definition no_valid_plugin :: "ids \<Rightarrow> event" where
  "no_valid_plugin i =
     WarningMessage (''No valid plug-in passed to build script. Using default argument: '' @
       PluginID_ALL i)"

text \<open>
  The result is the plug-in selection and the messages, or \<open>KeyError\<close> with the selection
  and the messages at the failed lookup \<open>CTX.plugins[PluginID.CORE]\<close>.
\<close>

definition resolve_plugins ::
  "env \<Rightarrow> string list \<Rightarrow> bool \<Rightarrow>
     (error \<times> selection \<times> event list) + (selection \<times> event list)"
where
  "resolve_plugins e tokens tests =
     (case plugins_loop (ID e) tokens (empty_plugins (ID e)) False []
      of (d, valid_plugin_found, out) \<Rightarrow>
        (case (if tests then getitem d (PluginID_CORE (ID e)) else Inr True) of
           Inl err \<Rightarrow> Inl (err, d, out)
         | Inr core \<Rightarrow>
             (let (d, out) =
                    (if tests \<and> \<not> core
                     then (setitem d (PluginID_CORE (ID e)) True, out @ core_not_selected e)
                     else (d, out))
              in if \<not> valid_plugin_found
                 then Inr (set_all d True, out @ [no_valid_plugin (ID e)])
                 else Inr (d, out))))"

subsection \<open>Clean actions (lines 221 to 248)\<close>

definition unknown_clean_action :: "ids \<Rightarrow> string \<Rightarrow> string" where
  "unknown_clean_action i action =
     ''Ignoring unknown clean action '' @ apostrophe @ action @ apostrophe @
     ''. Valid options are '' @ CleanActionID_NATIVE i @ '', '' @ CleanActionID_PACKAGES i @
     '', '' @ CleanActionID_TESTS i @ '', '' @ CleanActionID_ALL i @
     '', or '' @ CleanActionID_NONE i @ '' (Default)''"

fun clean_actions_loop ::
  "ids \<Rightarrow> string list \<Rightarrow> selection \<Rightarrow> bool \<Rightarrow> event list \<Rightarrow> selection \<times> bool \<times> event list"
where
  "clean_actions_loop i [] d found out = (d, found, out)"
| "clean_actions_loop i (action # rest) d found out =
     (if contains d action then clean_actions_loop i rest (setitem d action True) True out
      else if action = CleanActionID_ALL i then (set_all d True, True, out)
      else if action = CleanActionID_NONE i then (set_all d False, True, out)
      else clean_actions_loop i rest d found
             (out @ [WarningMessage (unknown_clean_action i action)]))"

definition empty_clean_actions :: "ids \<Rightarrow> selection" where
  "empty_clean_actions i =
     dict [(CleanActionID_NATIVE i, False), (CleanActionID_PACKAGES i, False),
           (CleanActionID_TESTS i, False)]"

definition resolve_clean_actions :: "ids \<Rightarrow> string list \<Rightarrow> selection \<times> event list" where
  "resolve_clean_actions i tokens =
     (case clean_actions_loop i tokens (empty_clean_actions i) False []
      of (d, valid_clean_action_found, out) \<Rightarrow>
        if \<not> valid_clean_action_found
        then (set_all d False,
              out @ [WarningMessage
                (''No valid clean action passed to build script. Using default argument: '' @
                 CleanActionID_NONE i)])
        else (d, out))"

subsection \<open>Input validation as a whole (lines 123 to 254)\<close>

text \<open>Lines 252 to 254: the installation root given on the command line.\<close>

definition set_unity_install_root :: "build_args \<Rightarrow> state \<Rightarrow> outcome" where
  "set_unity_install_root args st =
     (let unity_install_root = args_unity_installation_root args
      in case is_dir (disk st) unity_install_root of
           Inl err \<Rightarrow> Raised err st
         | Inr dir \<Rightarrow>
             if dir
             then Returned (st\<lparr>CTX := (CTX st)\<lparr>unity_install_root := unity_install_root\<rparr>\<rparr>)
             else Returned st)"

definition validate_build_actions :: "env \<Rightarrow> build_args \<Rightarrow> state \<Rightarrow> state" where
  "validate_build_actions e args st =
     (case resolve_build_actions (ID e) (args_build_actions args) of (d, out) \<Rightarrow>
        st\<lparr>CTX := (CTX st)\<lparr>build_actions := d\<rparr>, trace := trace st @ out\<rparr>)"

definition validate_platforms :: "env \<Rightarrow> build_args \<Rightarrow> state \<Rightarrow> state" where
  "validate_platforms e args st =
     (case resolve_platforms (ID e) (args_platform_list args) of (d, out) \<Rightarrow>
        st\<lparr>CTX := (CTX st)\<lparr>platforms := d, simulator_build := args_simulator_build args\<rparr>,
           trace := trace st @ out\<rparr>)"

definition validate_plugins :: "env \<Rightarrow> build_args \<Rightarrow> state \<Rightarrow> outcome" where
  "validate_plugins e args st =
     (case resolve_plugins e (args_plugin_list args) (args_build_tests args) of
        Inl (err, d, out) \<Rightarrow>
          Raised err
            (st\<lparr>CTX := (CTX st)\<lparr>plugins := d, build_tests := args_build_tests args\<rparr>,
                trace := trace st @ out\<rparr>)
      | Inr (d, out) \<Rightarrow>
          Returned
            (st\<lparr>CTX := (CTX st)\<lparr>plugins := d, build_tests := args_build_tests args\<rparr>,
                trace := trace st @ out\<rparr>))"

definition validate_clean_actions :: "env \<Rightarrow> build_args \<Rightarrow> state \<Rightarrow> state" where
  "validate_clean_actions e args st =
     (case resolve_clean_actions (ID e) (args_clean_actions args) of (d, out) \<Rightarrow>
        st\<lparr>CTX := (CTX st)\<lparr>clean_actions := d\<rparr>, trace := trace st @ out\<rparr>)"

definition validate_input :: "env \<Rightarrow> build_args \<Rightarrow> state \<Rightarrow> outcome" where
  "validate_input e args st =
     seq (validate_plugins e args (validate_platforms e args (validate_build_actions e args st)))
       (\<lambda>st. set_unity_install_root args (validate_clean_actions e args st))"

subsection \<open>Build paths (lines 258 to 298)\<close>

text \<open>The call \<open>utility.RemoveFolder(path, prompt = not force_clean, printer = ...)\<close>.\<close>

definition call_RemoveFolder :: "env \<Rightarrow> build_args \<Rightarrow> path \<Rightarrow> state \<Rightarrow> outcome" where
  "call_RemoveFolder e args p st =
     (let st = emit (RemoveFolder p (\<not> args_force_clean args)) st
      in case remove_folder e p (\<not> args_force_clean args) (disk st) of
           Inl err \<Rightarrow> Raised err st
         | Inr d \<Rightarrow> Returned (st\<lparr>disk := d\<rparr>))"

definition call_mkdir :: "path \<Rightarrow> state \<Rightarrow> outcome" where
  "call_mkdir p st =
     (case mkdir (disk st) p of
        Inl err \<Rightarrow> Raised err st
      | Inr d \<Rightarrow> Returned (st\<lparr>disk := d\<rparr>))"

text \<open>
  Lines 263 to 266: the clean action for packages. The \<open>and\<close> of line 263 tests the path
  only when the action is selected.
\<close>

definition clean_packages :: "env \<Rightarrow> build_args \<Rightarrow> state \<Rightarrow> outcome" where
  "clean_packages e args st =
     (case getitem (clean_actions (CTX st)) (CleanActionID_PACKAGES (ID e)) of
        Inl err \<Rightarrow> Raised err st
      | Inr packages \<Rightarrow>
          (case (if packages then exists (disk st) (build_path (CTX st)) else Inr False) of
             Inl err \<Rightarrow> Raised err st
           | Inr remove \<Rightarrow>
               if remove
               then call_RemoveFolder e args (build_path (CTX st))
                      (emit (StatusMessageWithContext ''Removing folder at path:''
                               (path_str (build_path (CTX st))))
                         (emit (StatusMessage ''Cleaning packages.'') st))
               else Returned st))"

text \<open>Lines 268 to 272: the output folder is created when building or packing.\<close>

definition create_build_path :: "env \<Rightarrow> state \<Rightarrow> outcome" where
  "create_build_path e st =
     (case getitem (build_actions (CTX st)) (BuildActionID_BUILD (ID e)) of
        Inl err \<Rightarrow> Raised err st
      | Inr build \<Rightarrow>
          (case (if build then Inr True
                 else getitem (build_actions (CTX st)) (BuildActionID_PACK (ID e))) of
             Inl err \<Rightarrow> Raised err st
           | Inr build_or_pack \<Rightarrow>
               if build_or_pack
               then (case exists (disk st) (build_path (CTX st)) of
                       Inl err \<Rightarrow> Raised err st
                     | Inr found \<Rightarrow>
                         if \<not> found
                         then call_mkdir (build_path (CTX st))
                                (emit (StatusMessageWithContext ''Creating: ''
                                         (path_str (build_path (CTX st))))
                                   (emit (Message ''Build output path not found.'') st))
                         else Returned st)
               else Returned st))"

text \<open>Lines 279 to 288: the test players of every plug-in folder are removed.\<close>

fun clean_test_players :: "env \<Rightarrow> build_args \<Rightarrow> path list \<Rightarrow> state \<Rightarrow> outcome" where
  "clean_test_players e args [] st = Returned st"
| "clean_test_players e args (curr_plugin_path # rest) st =
     (case is_dir (disk st) curr_plugin_path of
        Inl err \<Rightarrow> Raised err st
      | Inr plugin_dir \<Rightarrow>
          if \<not> plugin_dir then clean_test_players e args rest st
          else
            (case is_dir (disk st)
                    (joinpath curr_plugin_path (name curr_plugin_path @ ''_Unity'')) of
               Inl err \<Rightarrow> Raised err st
             | Inr project_dir \<Rightarrow>
                 (case (if project_dir
                        then is_dir (disk st)
                               (joinpath
                                  (joinpath curr_plugin_path (name curr_plugin_path @ ''_Unity''))
                                  ''TestPlayers'')
                        else Inr False) of
                    Inl err \<Rightarrow> Raised err st
                  | Inr players_dir \<Rightarrow>
                      if players_dir
                      then (case call_RemoveFolder e args
                                   (joinpath
                                      (joinpath curr_plugin_path
                                         (name curr_plugin_path @ ''_Unity''))
                                      ''TestPlayers'') st of
                              Raised err st' \<Rightarrow> Raised err st'
                            | Returned st' \<Rightarrow> clean_test_players e args rest st')
                      else clean_test_players e args rest st)))"

text \<open>Lines 275 to 288: the clean action for tests.\<close>

definition clean_tests :: "env \<Rightarrow> build_args \<Rightarrow> state \<Rightarrow> outcome" where
  "clean_tests e args st =
     (let test_build_root_path = args_test_output_path args
      in case getitem (clean_actions (CTX st)) (CleanActionID_TESTS (ID e)) of
           Inl err \<Rightarrow> Raised err st
         | Inr tests \<Rightarrow>
             (case (if tests then exists (disk st) test_build_root_path else Inr False) of
                Inl err \<Rightarrow> Raised err st
              | Inr remove \<Rightarrow>
                  if remove
                  then seq (call_RemoveFolder e args test_build_root_path
                              (emit (StatusMessage (''Clean tests option '' @ apostrophe @
                                       CleanActionID_TESTS (ID e) @ apostrophe @ '' set.'')) st))
                         (\<lambda>st. case iterdir (disk st) (plugin_root (CTX st)) of
                                 Inl err \<Rightarrow> Raised err st
                               | Inr entries \<Rightarrow> clean_test_players e args entries st)
                  else Returned st))"

text \<open>Lines 290 to 298: the folders of a test build.\<close>

definition create_test_build_paths :: "env \<Rightarrow> build_args \<Rightarrow> state \<Rightarrow> outcome" where
  "create_test_build_paths e args st =
     (let invocation_time_string = strftime (datetime_now e);
          test_build_root_path = args_test_output_path args
      in if build_tests (CTX st)
         then (case exists (disk st) (test_build_root (CTX st)) of
                 Inl err \<Rightarrow> Raised err st
               | Inr found \<Rightarrow>
                   seq (if \<not> found
                        then call_mkdir test_build_root_path
                               (emit (StatusMessageWithContext ''Creating: ''
                                        (path_str (test_build_root (CTX st))))
                                  (emit (StatusMessage ''Test build output root not found.'') st))
                        else Returned st)
                     (\<lambda>st. call_mkdir
                              (joinpath (test_build_root (CTX st))
                                 (''TestBuild_'' @ invocation_time_string))
                              (st\<lparr>CTX := (CTX st)\<lparr>test_build_output_path :=
                                     joinpath (test_build_root (CTX st))
                                       (''TestBuild_'' @ invocation_time_string)\<rparr>\<rparr>)))
         else Returned st)"

definition configure_build_paths :: "env \<Rightarrow> build_args \<Rightarrow> state \<Rightarrow> outcome" where
  "configure_build_paths e args st =
     seq (seq (seq (clean_packages e args
                      ((emit (SectionHeading ''Configure Build Paths'') st)
                         \<lparr>CTX := (CTX st)\<lparr>build_path := args_output_path args\<rparr>\<rparr>))
                 (create_build_path e))
            (clean_tests e args))
       (create_test_build_paths e args)"

subsection \<open>Native build, tests and packages (lines 302 to 348)\<close>

text \<open>
  Lines 324 to 332: the plug-in folders in build order. \<open>insert(0, p)\<close> puts a folder in
  front, \<open>append(p)\<close> at the end; entries that are not folders are skipped.
\<close>

fun plugin_path_list :: "fs \<Rightarrow> path list \<Rightarrow> path list \<Rightarrow> error + path list" where
  "plugin_path_list d [] acc = Inr acc"
| "plugin_path_list d (curr_plugin_path # rest) acc =
     (case is_dir d curr_plugin_path of
        Inl err \<Rightarrow> Inl err
      | Inr plugin_dir \<Rightarrow>
          if \<not> plugin_dir then plugin_path_list d rest acc
          else if name curr_plugin_path = ''Apple.Core''
            then plugin_path_list d rest (curr_plugin_path # acc)
          else plugin_path_list d rest (acc @ [curr_plugin_path]))"

text \<open>Lines 334 and 335: one call of the plug-in manager for each folder of the list.\<close>

definition process_plugins :: "path list \<Rightarrow> state \<Rightarrow> state" where
  "process_plugins ps st = fold (\<lambda>plugin_path. emit (ProcessNativeUnityPlugin plugin_path)) ps st"

definition xcode_info :: "env \<Rightarrow> string" where
  "xcode_info e =
     ''If this is incorrect, please update your environment with '' @
     Printer_Bold e ''xcode-select'' @ ''. (Call '' @ apostrophe @
     Printer_Bold e ''xcode-select -h'' @ apostrophe @
     '' from the command line for more info.)''"

text \<open>Lines 303 to 307: the toolchain is reported.\<close>

definition report_toolchain :: "env \<Rightarrow> state \<Rightarrow> state" where
  "report_toolchain e st =
     (case toolchain_versions e of (xcode_version, xcode_build_number) \<Rightarrow>
        emit (InfoMessage (xcode_info e))
          (emit (MessageWithContext ''Native library build using: ''
                   (''Xcode '' @ xcode_version @ '' ('' @ xcode_build_number @ '')''))
             (emit GetToolchainVersions
                (emit (SectionHeading ''Configure Native Library Build Options'') st))))"

text \<open>Line 309: the build configuration.\<close>

definition set_build_config :: "env \<Rightarrow> build_args \<Rightarrow> state \<Rightarrow> state" where
  "set_build_config e args st =
     st\<lparr>CTX := (CTX st)\<lparr>build_config :=
           (if args_debug args then ConfigID_DEBUG (ID e) else ConfigID_RELEASE (ID e))\<rparr>\<rparr>"

text \<open>Lines 311 to 314: the codesign identity; the user is asked when none was given.\<close>

definition set_codesign_hash :: "env \<Rightarrow> build_args \<Rightarrow> state \<Rightarrow> state" where
  "set_codesign_hash e args st =
     (if args_skip_codesign args
      then st\<lparr>CTX := (CTX st)\<lparr>codesign_hash := []\<rparr>\<rparr>
      else if length (args_codesign_identity args) > 0
        then st\<lparr>CTX := (CTX st)\<lparr>codesign_hash := args_codesign_identity args\<rparr>\<rparr>
      else (emit PromptForCodesignIdentity st)
             \<lparr>CTX := (CTX st)\<lparr>codesign_hash := prompted_identity e\<rparr>\<rparr>)"

text \<open>Lines 303 to 314: toolchain, build configuration and codesign identity.\<close>

definition configure_native_build :: "env \<Rightarrow> build_args \<Rightarrow> state \<Rightarrow> state" where
  "configure_native_build e args st =
     set_codesign_hash e args (set_build_config e args (report_toolchain e st))"

text \<open>
  Lines 316 to 321: the plug-in manager is created. It is here only, inside the branch of
  the build action, that the local \<open>unity_plugin_manager\<close> is assigned.
\<close>

definition gather_unity_installation_info :: "state \<Rightarrow> state" where
  "gather_unity_installation_info st =
     (let st = emit (SectionHeading ''Gather Unity Installation Info'') st;
          st = (emit NativeUnityPluginManager st)\<lparr>unity_plugin_manager := True\<rparr>;
          st = emit ScanForUnityInstallations st
      in emit (SectionHeading ''Process Plug-Ins'') st)"

text \<open>Lines 323 to 338: the plug-ins are processed in build order.\<close>

definition process_native_plugins :: "state \<Rightarrow> outcome" where
  "process_native_plugins st =
     (case iterdir (disk st) (plugin_root (CTX st)) of
        Inl err \<Rightarrow> Raised err st
      | Inr entries \<Rightarrow>
          (case plugin_path_list (disk st) entries [] of
             Inl err \<Rightarrow> Raised err st
           | Inr plugin_paths \<Rightarrow>
               Returned
                 (emit ValidateProjectVersions
                    (emit (SectionHeading ''Update and Create Unity .meta Files'')
                       (process_plugins plugin_paths st)))))"

text \<open>Lines 302 to 338: the native build.\<close>

definition build_native :: "env \<Rightarrow> build_args \<Rightarrow> state \<Rightarrow> outcome" where
  "build_native e args st =
     (case getitem (build_actions (CTX st)) (BuildActionID_BUILD (ID e)) of
        Inl err \<Rightarrow> Raised err st
      | Inr build \<Rightarrow>
          if build
          then process_native_plugins
                 (gather_unity_installation_info (configure_native_build e args st))
          else Returned st)"

text \<open>
  Lines 340 to 342. Reading the local \<open>unity_plugin_manager\<close> before it is assigned raises
  \<open>UnboundLocalError\<close>.
\<close>

definition build_unity_tests :: "state \<Rightarrow> outcome" where
  "build_unity_tests st =
     (if build_tests (CTX st)
      then (let st = emit (SectionHeading ''Build Unity Tests'') st
            in if unity_plugin_manager st then Returned (emit BuildTests st)
               else Raised UnboundLocalError st)
      else Returned st)"

text \<open>Lines 344 to 346.\<close>

definition create_packages :: "env \<Rightarrow> state \<Rightarrow> outcome" where
  "create_packages e st =
     (case getitem (build_actions (CTX st)) (BuildActionID_PACK (ID e)) of
        Inl err \<Rightarrow> Raised err st
      | Inr pack \<Rightarrow>
          if pack
          then (let st = emit (SectionHeading ''Create Plug-In Packages'') st
                in if unity_plugin_manager st then Returned (emit GeneratePlugInPackages st)
                   else Raised UnboundLocalError st)
          else Returned st)"

definition finish :: "state \<Rightarrow> outcome" where
  "finish st = Returned (emit (Message ''Finished running Unity plug-in build script.'') st)"

subsection \<open>\<open>Main\<close>\<close>

text \<open>
  \<open>Main\<close> starts from the context and the file system it finds, with no helper called
  and with \<open>unity_plugin_manager\<close> unbound.
\<close>

definition initial :: "build_context \<Rightarrow> fs \<Rightarrow> state" where
  "initial c d = \<lparr>CTX = c, disk = d, trace = [], unity_plugin_manager = False\<rparr>"

definition Main :: "env \<Rightarrow> build_args \<Rightarrow> build_context \<Rightarrow> fs \<Rightarrow> outcome" where
  "Main e args c d =
     seq (seq (seq (seq (seq (validate_input e args (print_summary args (initial c d)))
                           (configure_build_paths e args))
                      (build_native e args))
                 build_unity_tests)
            (create_packages e))
       finish"

text \<open>The invocation of a helper call occurs in a run.\<close>

definition invoked :: "event \<Rightarrow> outcome \<Rightarrow> bool" where
  "invoked ev r = (ev \<in> set (trace (final_state r)))"

definition raised :: "outcome \<Rightarrow> error option" where
  "raised r = (case r of Returned st \<Rightarrow> None | Raised err st \<Rightarrow> Some err)"

section \<open>A concrete installation\<close>

text \<open>
  Modelled from the spec: \<open>utility.RemoveFolder\<close> of \<open>scripts/upi_utility.py\<close>, which removes
  the folder recursively; here the user confirms every removal.
\<close>

definition rmtree :: "path \<Rightarrow> bool \<Rightarrow> fs \<Rightarrow> error + fs" where
  "rmtree p prompt d = Inr (filter (\<lambda>(q, k). take (length p) q \<noteq> p) d)"

definition example_env :: env where
  "example_env = \<lparr>
     ID = spec_ids,
     Printer_Bold = (\<lambda>s. s),
     toolchain_versions = (''15.4'', ''15F31d''),
     prompted_identity = ''-'',
     remove_folder = rmtree,
     datetime_now = \<lparr>year = 2026, month = 11, day = 4, hour = 2, minute = 25, second = 7\<rparr> \<rparr>"

text \<open>
  A repository checkout with three plug-in folders and a file in the plug-in root, scanned
  in this order, and with existing output folders.
\<close>

definition example_disk :: fs where
  "example_disk =
     [([''repo''], Dir),
      ([''repo'', ''plug-ins''], Dir),
      ([''repo'', ''plug-ins'', ''Apple.GameKit''], Dir),
      ([''repo'', ''plug-ins'', ''README.md''], File),
      ([''repo'', ''plug-ins'', ''Apple.Core''], Dir),
      ([''repo'', ''plug-ins'', ''Apple.PHASE''], Dir),
      ([''repo'', ''Build''], Dir),
      ([''repo'', ''TestBuilds''], Dir),
      ([''Applications''], Dir),
      ([''Applications'', ''Unity''], Dir)]"

definition example_CTX :: build_context where
  "example_CTX = \<lparr>
     build_actions = [],
     platforms = [],
     simulator_build = False,
     plugins = [],
     build_tests = False,
     clean_actions = [],
     unity_install_root = [''Applications'', ''Unity''],
     build_path = [],
     plugin_root = [''repo'', ''plug-ins''],
     test_build_root = [''repo'', ''TestBuilds''],
     test_build_output_path = [],
     build_config = [],
     codesign_hash = [] \<rparr>"

text \<open>The defaults of the argument parser (lines 73 to 85) for this installation.\<close>

definition example_args :: build_args where
  "example_args = \<lparr>
     args_plugin_list = [PluginID_ALL spec_ids],
     args_platform_list = [PlatformID_ALL spec_ids],
     args_build_actions = [BuildActionID_BUILD spec_ids, BuildActionID_PACK spec_ids],
     args_simulator_build = False,
     args_codesign_identity = [],
     args_skip_codesign = False,
     args_unity_installation_root = [''Applications'', ''Unity''],
     args_debug = False,
     args_output_path = [''repo'', ''Build''],
     args_clean_actions = [CleanActionID_NONE spec_ids],
     args_force_clean = False,
     args_build_tests = False,
     args_test_output_path = [''repo'', ''TestBuilds''] \<rparr>"

text \<open>The plug-in folders for which the plug-in manager is called, in call order.\<close>

fun processed_plugin :: "event \<Rightarrow> path option" where
  "processed_plugin (ProcessNativeUnityPlugin p) = Some p"
| "processed_plugin _ = None"

definition processed :: "event list \<Rightarrow> path list" where
  "processed tr = List.map_filter processed_plugin tr"

text \<open>The identifiers of each class are pairwise different.\<close>

definition distinct_ids :: "ids \<Rightarrow> bool" where
  "distinct_ids i =
     (distinct [PluginID_ACCESSIBILITY i, PluginID_CORE i, PluginID_CORE_HAPTICS i,
                PluginID_GAME_CONTROLLER i, PluginID_GAME_KIT i, PluginID_PHASE i,
                PluginID_ALL i] \<and>
      distinct [PlatformID_IOS i, PlatformID_MACOS i, PlatformID_TVOS i, PlatformID_ALL i] \<and>
      distinct [BuildActionID_BUILD i, BuildActionID_PACK i, BuildActionID_NONE i,
                BuildActionID_ALL i] \<and>
      distinct [CleanActionID_NATIVE i, CleanActionID_PACKAGES i, CleanActionID_TESTS i,
                CleanActionID_NONE i, CleanActionID_ALL i])"

section \<open>Properties of dictionaries and of the resolution loops\<close>

lemma map_of_setitem: "map_of (setitem d k v) = (map_of d)(k \<mapsto> v)"
  by (simp add: setitem_def update_conv')

lemma keys_setitem: "k \<in> set (keys d) \<Longrightarrow> keys (setitem d k v) = keys d"
  by (simp add: setitem_def keys_def update_keys)

lemma set_keys_setitem: "set (keys (setitem d k v)) = insert k (set (keys d))"
  by (auto simp: setitem_def keys_def update_keys)

lemma fold_setitem_keys:
  "set ks \<subseteq> set (keys d) \<Longrightarrow> keys (fold (\<lambda>k acc. setitem acc k v) ks d) = keys d"
  by (induction ks arbitrary: d) (simp_all add: keys_setitem)

lemma fold_setitem_map_of:
  "map_of (fold (\<lambda>k acc. setitem acc k v) ks d) k' =
     (if k' \<in> set ks then Some v else map_of d k')"
  by (induction ks arbitrary: d) (simp_all add: map_of_setitem)

lemma keys_set_all: "keys (set_all d v) = keys d"
  by (simp add: set_all_def fold_setitem_keys)

lemma map_of_set_all:
  "map_of (set_all d v) k = (if k \<in> set (keys d) then Some v else None)"
  by (auto simp: set_all_def fold_setitem_map_of keys_def map_of_eq_None_iff)

lemma every_member_set_all: "every_member (set_all d v) v"
  by (simp add: every_member_def list_all_iff keys_set_all map_of_set_all)

lemma set_map_fst_update: "set (map fst (AList.update k v al)) = insert k (set (map fst al))"
  by (auto simp: update_keys)

lemma foldl_update_keys:
  "set (map fst (foldl (\<lambda>d (k, v). AList.update k v d) acc kvs)) =
     set (map fst acc) \<union> fst ` set kvs"
proof (induction kvs arbitrary: acc)
  case Nil
  then show ?case by simp
next
  case (Cons kv kvs)
  obtain k v where kv: "kv = (k, v)" by (cases kv)
  show ?case
    unfolding kv foldl_Cons prod.case Cons.IH set_map_fst_update by auto
qed

lemma set_keys_dict: "set (keys (dict kvs)) = fst ` set kvs"
  using foldl_update_keys [of "[]" kvs] by (simp add: dict_def keys_def)



lemma contains_iff: "contains d k \<longleftrightarrow> k \<in> set (keys d)"
  by (simp add: contains_def)

lemma every_member_setitem:
  "every_member d v \<Longrightarrow> every_member (setitem d k v) v"
  by (auto simp: every_member_def list_all_iff map_of_setitem set_keys_setitem)

subsection \<open>The plug-ins loop\<close>

lemma plugins_loop_keys:
  "keys (fst (plugins_loop i ts d found out)) = keys d"
  by (induction i ts d found out rule: plugins_loop.induct)
     (simp_all add: contains_iff keys_setitem keys_set_all)

lemma plugins_loop_ALL:
  assumes "PluginID_ALL i \<notin> set (keys d)"
  shows "plugins_loop i (pre @ PluginID_ALL i # post) d found out =
           plugins_loop i (pre @ [PluginID_ALL i]) d found out \<and>
         every_member (fst (plugins_loop i (pre @ [PluginID_ALL i]) d found out)) True \<and>
         fst (snd (plugins_loop i (pre @ [PluginID_ALL i]) d found out))"
  using assms
proof (induction pre arbitrary: d found out)
  case Nil
  then show ?case by (simp add: contains_iff every_member_set_all)
next
  case (Cons t pre)
  show ?case
  proof (cases "contains d t")
    case True
    then have "PluginID_ALL i \<notin> set (keys (setitem d t True))"
      using Cons.prems by (simp add: contains_iff keys_setitem)
    from Cons.IH [OF this] True show ?thesis by simp
  next
    case False
    then show ?thesis
      using Cons.IH [OF Cons.prems] by (simp add: every_member_set_all)
  qed
qed



subsection \<open>The build actions loop\<close>

lemma build_actions_loop_keys:
  "keys (fst (build_actions_loop i ts d found out)) = keys d"
  by (induction i ts d found out rule: build_actions_loop.induct)
     (simp_all add: contains_iff keys_setitem keys_set_all)

lemma build_actions_loop_ALL:
  assumes "BuildActionID_ALL i \<notin> set (keys d)" and "BuildActionID_NONE i \<notin> set pre"
  shows "build_actions_loop i (pre @ BuildActionID_ALL i # post) d found out =
           build_actions_loop i (pre @ [BuildActionID_ALL i]) d found out \<and>
         every_member (fst (build_actions_loop i (pre @ [BuildActionID_ALL i]) d found out)) True \<and>
         fst (snd (build_actions_loop i (pre @ [BuildActionID_ALL i]) d found out))"
  using assms
proof (induction pre arbitrary: d found out)
  case Nil
  then show ?case by (simp add: contains_iff every_member_set_all)
next
  case (Cons t pre)
  have pre: "BuildActionID_NONE i \<notin> set pre" and t: "t \<noteq> BuildActionID_NONE i"
    using Cons.prems(2) by auto
  show ?case
  proof (cases "contains d t")
    case True
    then have "BuildActionID_ALL i \<notin> set (keys (setitem d t True))"
      using Cons.prems(1) by (simp add: contains_iff keys_setitem)
    from Cons.IH [OF this pre] True show ?thesis by simp
  next
    case False
    then show ?thesis
      using Cons.IH [OF Cons.prems(1) pre] t by (simp add: every_member_set_all)
  qed
qed

lemma build_actions_loop_NONE:
  assumes "BuildActionID_NONE i \<notin> set (keys d)" and "BuildActionID_ALL i \<notin> set pre"
    and "BuildActionID_ALL i \<noteq> BuildActionID_NONE i"
  shows "build_actions_loop i (pre @ BuildActionID_NONE i # post) d found out =
           build_actions_loop i (pre @ [BuildActionID_NONE i]) d found out \<and>
         every_member (fst (build_actions_loop i (pre @ [BuildActionID_NONE i]) d found out)) False \<and>
         fst (snd (build_actions_loop i (pre @ [BuildActionID_NONE i]) d found out))"
  using assms
proof (induction pre arbitrary: d found out)
  case Nil
  then show ?case by (simp add: contains_iff every_member_set_all)
next
  case (Cons t pre)
  have pre: "BuildActionID_ALL i \<notin> set pre" and t: "t \<noteq> BuildActionID_ALL i"
    using Cons.prems(2) by auto
  show ?case
  proof (cases "contains d t")
    case True
    then have "BuildActionID_NONE i \<notin> set (keys (setitem d t True))"
      using Cons.prems(1) by (simp add: contains_iff keys_setitem)
    from Cons.IH [OF this pre Cons.prems(3)] True show ?thesis by simp
  next
    case False
    then show ?thesis
      using Cons.IH [OF Cons.prems(1) pre Cons.prems(3)] t by (simp add: every_member_set_all)
  qed
qed

subsection \<open>The clean actions loop\<close>

lemma clean_actions_loop_keys:
  "keys (fst (clean_actions_loop i ts d found out)) = keys d"
  by (induction i ts d found out rule: clean_actions_loop.induct)
     (simp_all add: contains_iff keys_setitem keys_set_all)

lemma clean_actions_loop_ALL:
  assumes "CleanActionID_ALL i \<notin> set (keys d)" and "CleanActionID_NONE i \<notin> set pre"
  shows "clean_actions_loop i (pre @ CleanActionID_ALL i # post) d found out =
           clean_actions_loop i (pre @ [CleanActionID_ALL i]) d found out \<and>
         every_member (fst (clean_actions_loop i (pre @ [CleanActionID_ALL i]) d found out)) True \<and>
         fst (snd (clean_actions_loop i (pre @ [CleanActionID_ALL i]) d found out))"
  using assms
proof (induction pre arbitrary: d found out)
  case Nil
  then show ?case by (simp add: contains_iff every_member_set_all)
next
  case (Cons t pre)
  have pre: "CleanActionID_NONE i \<notin> set pre" and t: "t \<noteq> CleanActionID_NONE i"
    using Cons.prems(2) by auto
  show ?case
  proof (cases "contains d t")
    case True
    then have "CleanActionID_ALL i \<notin> set (keys (setitem d t True))"
      using Cons.prems(1) by (simp add: contains_iff keys_setitem)
    from Cons.IH [OF this pre] True show ?thesis by simp
  next
    case False
    then show ?thesis
      using Cons.IH [OF Cons.prems(1) pre] t by (simp add: every_member_set_all)
  qed
qed

lemma clean_actions_loop_NONE:
  assumes "CleanActionID_NONE i \<notin> set (keys d)" and "CleanActionID_ALL i \<notin> set pre"
    and "CleanActionID_ALL i \<noteq> CleanActionID_NONE i"
  shows "clean_actions_loop i (pre @ CleanActionID_NONE i # post) d found out =
           clean_actions_loop i (pre @ [CleanActionID_NONE i]) d found out \<and>
         every_member (fst (clean_actions_loop i (pre @ [CleanActionID_NONE i]) d found out)) False \<and>
         fst (snd (clean_actions_loop i (pre @ [CleanActionID_NONE i]) d found out))"
  using assms
proof (induction pre arbitrary: d found out)
  case Nil
  then show ?case by (simp add: contains_iff every_member_set_all)
next
  case (Cons t pre)
  have pre: "CleanActionID_ALL i \<notin> set pre" and t: "t \<noteq> CleanActionID_ALL i"
    using Cons.prems(2) by auto
  show ?case
  proof (cases "contains d t")
    case True
    then have "CleanActionID_NONE i \<notin> set (keys (setitem d t True))"
      using Cons.prems(1) by (simp add: contains_iff keys_setitem)
    from Cons.IH [OF this pre Cons.prems(3)] True show ?thesis by simp
  next
    case False
    then show ?thesis
      using Cons.IH [OF Cons.prems(1) pre Cons.prems(3)] t by (simp add: every_member_set_all)
  qed
qed

subsection \<open>The platforms loop\<close>

lemma platforms_loop_ALL:
  "platforms_loop i (pre @ PlatformID_ALL i # post) d found out =
     platforms_loop i (pre @ [PlatformID_ALL i]) d found out \<and>
   every_member (fst (platforms_loop i (pre @ [PlatformID_ALL i]) d found out)) True \<and>
   fst (snd (platforms_loop i (pre @ [PlatformID_ALL i]) d found out))"
  by (induction pre arbitrary: d found out) (simp_all add: every_member_set_all)

subsection \<open>Plug-in resolution\<close>

lemma CORE_in_empty_plugins: "PluginID_CORE i \<in> set (keys (empty_plugins i))"
  by (simp add: empty_plugins_def set_keys_dict)



section \<open>Path preparation and the installation root\<close>

text \<open>
  C8. When the clean action for packages is selected and the existence test of the build
  output path returns false (the path can be examined and does not exist), the clean step
  (lines 263 to 266) does nothing: it returns without an error, calls no helper (so the
  folder remover is not called) and leaves file system and context as they are. When the
  path cannot be examined, the existence test raises and the step ends the run with that
  error, again without a helper call or a change of the file system. The statement that
  no error is raised for every path that does not exist fails: a path with a name of 300
  characters does not exist, and the run is ended by \<open>OSError\<close>.
\<close>

theorem C8_clean_packages_without_output_path:
  assumes "getitem (clean_actions (CTX st)) (CleanActionID_PACKAGES (ID e)) = Inr True"
  shows "(exists (disk st) (build_path (CTX st)) = Inr False \<longrightarrow>
            clean_packages e args st = Returned st) \<and>
         (\<forall>err. exists (disk st) (build_path (CTX st)) = Inl err \<longrightarrow>
            clean_packages e args st = Raised err st) \<and>
         (exists (disk st) (build_path (CTX st)) \<noteq> Inr True \<longrightarrow>
            trace (final_state (clean_packages e args st)) = trace st \<and>
            disk (final_state (clean_packages e args st)) = disk st \<and>
            CTX (final_state (clean_packages e args st)) = CTX st)"
proof (cases "exists (disk st) (build_path (CTX st))")
  case (Inl err)
  then show ?thesis using assms by (simp add: clean_packages_def final_state_def)
next
  case (Inr b)
  then show ?thesis using assms by (cases b) (simp_all add: clean_packages_def final_state_def)
qed

theorem C8_clean_packages_without_output_path_witness:
  "getitem (clean_actions (CTX (initial
       (example_CTX\<lparr>clean_actions := [(''native'', False), (''packages'', True), (''tests'', False)],
                     build_path := [''repo'', ''Out'']\<rparr>) example_disk)))
     (CleanActionID_PACKAGES (ID example_env)) = Inr True \<and>
   exists example_disk [''repo'', ''Out''] = Inr False \<and>
   clean_packages example_env example_args (initial
       (example_CTX\<lparr>clean_actions := [(''native'', False), (''packages'', True), (''tests'', False)],
                     build_path := [''repo'', ''Out'']\<rparr>) example_disk) =
     Returned (initial
       (example_CTX\<lparr>clean_actions := [(''native'', False), (''packages'', True), (''tests'', False)],
                     build_path := [''repo'', ''Out'']\<rparr>) example_disk)"
proof -
  let ?st = "initial
       (example_CTX\<lparr>clean_actions := [(''native'', False), (''packages'', True), (''tests'', False)],
                     build_path := [''repo'', ''Out'']\<rparr>) example_disk"
  have h1: "getitem (clean_actions (CTX ?st)) (CleanActionID_PACKAGES (ID example_env)) = Inr True"
    by (simp add: initial_def getitem_def example_env_def spec_ids_def)
  have h2: "exists example_disk [''repo'', ''Out''] = Inr False"
    by code_simp
  then have h3: "exists (disk ?st) (build_path (CTX ?st)) = Inr False"
    by (simp add: initial_def)
  show ?thesis
    using C8_clean_packages_without_output_path [OF h1, of example_args] h1 h2 h3 by simp
qed

theorem C8_counterexample:
  "map_of example_disk [replicate 300 (CHR ''a'')] = None \<and>
   raised (Main example_env
             (example_args\<lparr>args_clean_actions := [''packages''],
                           args_output_path := [replicate 300 (CHR ''a'')]\<rparr>)
             example_CTX example_disk) = Some OSError \<and>
   \<not> invoked (RemoveFolder [replicate 300 (CHR ''a'')] True)
       (Main example_env
             (example_args\<lparr>args_clean_actions := [''packages''],
                           args_output_path := [replicate 300 (CHR ''a'')]\<rparr>)
             example_CTX example_disk)"
  by code_simp

text \<open>
  C10. Lines 252 to 254: when the installation root given on the command line can be
  examined and is not an existing folder, the state is left as it is (the context keeps its
  installation root, no message is emitted, nothing is raised); when it is an existing
  folder, the installation root of the context is overridden and nothing else changes;
  when it cannot be examined, \<open>is_dir\<close> raises and the run ends with that error and the
  state as it was. The statement that no error is raised for every argument that is not an
  existing folder fails for a name of 300 characters.
\<close>

theorem C10_unity_install_root:
  "(is_dir (disk st) (args_unity_installation_root args) = Inr False \<longrightarrow>
      set_unity_install_root args st = Returned st) \<and>
   (is_dir (disk st) (args_unity_installation_root args) = Inr True \<longrightarrow>
      set_unity_install_root args st =
        Returned (st\<lparr>CTX := (CTX st)\<lparr>unity_install_root := args_unity_installation_root args\<rparr>\<rparr>)) \<and>
   (\<forall>err. is_dir (disk st) (args_unity_installation_root args) = Inl err \<longrightarrow>
      set_unity_install_root args st = Raised err st)"
  by (simp add: set_unity_install_root_def)

theorem C10_unity_install_root_witness:
  "is_dir example_disk [''Applications'', ''Unity Hub''] = Inr False \<and>
   set_unity_install_root
     (example_args\<lparr>args_unity_installation_root := [''Applications'', ''Unity Hub'']\<rparr>)
     (initial example_CTX example_disk) = Returned (initial example_CTX example_disk) \<and>
   is_dir example_disk [''Applications''] = Inr True \<and>
   set_unity_install_root
     (example_args\<lparr>args_unity_installation_root := [''Applications'']\<rparr>)
     (initial example_CTX example_disk) =
     Returned (initial (example_CTX\<lparr>unity_install_root := [''Applications'']\<rparr>) example_disk) \<and>
   is_dir example_disk [replicate 300 (CHR ''a'')] = Inl OSError \<and>
   set_unity_install_root
     (example_args\<lparr>args_unity_installation_root := [replicate 300 (CHR ''a'')]\<rparr>)
     (initial example_CTX example_disk) = Raised OSError (initial example_CTX example_disk)"
proof -
  have h1: "is_dir example_disk [''Applications'', ''Unity Hub''] = Inr False"
    by code_simp
  have h2: "is_dir example_disk [''Applications''] = Inr True"
    by code_simp
  have h3: "is_dir example_disk [replicate 300 (CHR ''a'')] = Inl OSError"
    by code_simp
  show ?thesis
    using h1 h2 h3
      C10_unity_install_root [of "initial example_CTX example_disk"
        "example_args\<lparr>args_unity_installation_root := [''Applications'', ''Unity Hub'']\<rparr>"]
      C10_unity_install_root [of "initial example_CTX example_disk"
        "example_args\<lparr>args_unity_installation_root := [''Applications'']\<rparr>"]
      C10_unity_install_root [of "initial example_CTX example_disk"
        "example_args\<lparr>args_unity_installation_root := [replicate 300 (CHR ''a'')]\<rparr>"]
    by (simp add: initial_def)
qed

theorem C10_counterexample:
  "map_of example_disk [replicate 300 (CHR ''a'')] = None \<and>
   raised (Main example_env
             (example_args\<lparr>args_unity_installation_root := [replicate 300 (CHR ''a'')]\<rparr>)
             example_CTX example_disk) = Some OSError"
  by code_simp

section \<open>The plug-in build order\<close>

lemma resolve_append:
  "resolve d cur k (xs @ ys) =
     (case resolve d cur k xs of Inl err \<Rightarrow> Inl err | Inr k' \<Rightarrow> resolve d (cur @ xs) k' ys)"
  by (induction xs arbitrary: cur k) (simp_all split: kind.splits option.splits sum.splits)

lemma is_dir_entry:
  assumes "iterdir d r = Inr es" and "c \<in> set es"
  shows "\<exists>b. is_dir d c = Inr b"
proof -
  have r: "stat d r = Inr Dir"
    using assms(1) by (auto simp: iterdir_def split: sum.splits kind.splits)
  have es: "es = filter (\<lambda>q. q \<noteq> [] \<and> butlast q = r) (map fst d)"
    using assms(1) r by (simp add: iterdir_def)
  then have c: "c \<noteq> []" "butlast c = r" "c \<in> fst ` set d"
    using assms(2) by auto
  then obtain k where k: "map_of d c = Some k"
    by (cases "map_of d c") (auto simp: map_of_eq_None_iff)
  have "c = r @ [last c]" using c(1,2) by (metis append_butlast_last_id)
  then have "stat d c = resolve d [] Dir (r @ [last c])" by (simp add: stat_def)
  also have "\<dots> = resolve d r Dir [last c]"
    using r by (simp add: resolve_append stat_def)
  also have "\<dots> = Inr k"
    using k \<open>c = r @ [last c]\<close> by simp
  finally show ?thesis by (simp add: is_dir_def)
qed

lemma plugin_path_list_eq:
  assumes "\<forall>p \<in> set es. \<exists>b. is_dir d p = Inr b"
  shows "plugin_path_list d es acc =
     Inr (rev (filter (\<lambda>p. is_dir d p = Inr True \<and> name p = ''Apple.Core'') es) @ acc @
          filter (\<lambda>p. is_dir d p = Inr True \<and> name p \<noteq> ''Apple.Core'') es)"
  using assms
proof (induction es arbitrary: acc)
  case Nil
  then show ?case by simp
next
  case (Cons p es)
  then obtain b where b: "is_dir d p = Inr b" by auto
  have "\<forall>p \<in> set es. \<exists>b. is_dir d p = Inr b" using Cons.prems by simp
  note IH = Cons.IH [OF this]
  show ?case using b IH by (cases b) simp_all
qed

lemma filter_unique:
  "distinct (map f xs) \<Longrightarrow> x \<in> set xs \<Longrightarrow> P x \<Longrightarrow> filter (\<lambda>p. P p \<and> f p = f x) xs = [x]"
proof (induction xs)
  case Nil
  then show ?case by simp
next
  case (Cons y ys)
  have notin: "f y \<notin> f ` set ys" and dist: "distinct (map f ys)"
    using Cons.prems(1) by simp_all
  show ?case
  proof (cases "y = x")
    case True
    have "\<forall>p \<in> set ys. f p \<noteq> f x"
      using notin True by (metis imageI)
    then have "filter (\<lambda>p. P p \<and> f p = f x) ys = []"
      by (simp add: filter_empty_conv)
    then show ?thesis using True Cons.prems(3) by simp
  next
    case False
    then have x: "x \<in> set ys" using Cons.prems(2) by simp
    then have "f y \<noteq> f x" using notin by (metis imageI)
    then show ?thesis using Cons.IH [OF dist x Cons.prems(3)] by simp
  qed
qed

lemma iterdir_names_distinct:
  assumes "distinct (map fst d)" and "iterdir d r = Inr es"
  shows "distinct (map name es)"
proof -
  have es: "es = filter (\<lambda>q. q \<noteq> [] \<and> butlast q = r) (map fst d)"
    using assms(2) by (auto simp: iterdir_def split: sum.splits kind.splits)
  have "inj_on name (set es)"
  proof (rule inj_onI)
    fix p q assume "p \<in> set es" "q \<in> set es" "name p = name q"
    then have "p \<noteq> []" "q \<noteq> []" "butlast p = butlast q" "last p = last q"
      by (auto simp: es name_def)
    then show "p = q" by (metis append_butlast_last_id)
  qed
  moreover have "distinct es" using assms(1) by (simp add: es)
  ultimately show ?thesis by (simp add: distinct_map)
qed

lemma processed_append: "processed (xs @ ys) = processed xs @ processed ys"
  by (simp add: processed_def List.map_filter_def)

lemma processed_Nil: "processed [] = []"
  by (simp add: processed_def List.map_filter_def)

lemma processed_Cons:
  "processed (ev # evs) =
     (case processed_plugin ev of None \<Rightarrow> processed evs | Some p \<Rightarrow> p # processed evs)"
  by (simp add: processed_def List.map_filter_def split: option.splits)

lemma processed_map: "processed (map ProcessNativeUnityPlugin ps) = ps"
  by (induction ps) (simp_all add: processed_def List.map_filter_def)

lemma trace_process_plugins:
  "trace (process_plugins ps st) = trace st @ map ProcessNativeUnityPlugin ps"
  unfolding process_plugins_def
  by (induction ps arbitrary: st) (simp_all add: emit_def)

lemma processed_configure_native_build:
  "processed (trace (configure_native_build e args st)) = processed (trace st)"
  by (cases "toolchain_versions e")
     (simp add: configure_native_build_def set_codesign_hash_def set_build_config_def
        report_toolchain_def emit_def processed_append processed_Nil processed_Cons)

lemma CTX_configure: "plugin_root (CTX (configure_native_build e args st)) = plugin_root (CTX st)"
  by (cases "toolchain_versions e")
     (simp add: configure_native_build_def set_codesign_hash_def set_build_config_def
        report_toolchain_def emit_def)

lemma disk_configure: "disk (configure_native_build e args st) = disk st"
  by (cases "toolchain_versions e")
     (simp add: configure_native_build_def set_codesign_hash_def set_build_config_def
        report_toolchain_def emit_def)

text \<open>
  C7. For every listing of the plug-in root (of a file system without duplicate entries),
  the build order puts the folder named \<open>Apple.Core\<close> first and keeps the other folders in
  scan order, and the native build calls the plug-in manager once for each folder of the
  build order, in that order.
\<close>

theorem C7_core_plugin_first:
  assumes "distinct (map fst (disk st))"
    and "iterdir (disk st) (plugin_root (CTX st)) = Inr entries"
    and "getitem (build_actions (CTX st)) (BuildActionID_BUILD (ID e)) = Inr True"
  shows "\<exists>st' plugin_paths. build_native e args st = Returned st' \<and>
           plugin_path_list (disk st) entries [] = Inr plugin_paths \<and>
           processed (trace st') = processed (trace st) @ plugin_paths \<and>
           (\<forall>c \<in> set entries. is_dir (disk st) c = Inr True \<and> name c = ''Apple.Core'' \<longrightarrow>
              plugin_paths =
                c # filter (\<lambda>p. is_dir (disk st) p = Inr True \<and> name p \<noteq> ''Apple.Core'')
                      entries) \<and>
           filter (\<lambda>p. name p \<noteq> ''Apple.Core'') plugin_paths =
             filter (\<lambda>p. is_dir (disk st) p = Inr True \<and> name p \<noteq> ''Apple.Core'') entries"
proof -
  let ?order = "rev (filter (\<lambda>p. is_dir (disk st) p = Inr True \<and> name p = ''Apple.Core'') entries) @
      filter (\<lambda>p. is_dir (disk st) p = Inr True \<and> name p \<noteq> ''Apple.Core'') entries"
  have names: "distinct (map name entries)"
    using iterdir_names_distinct [OF assms(1,2)] .
  have "\<forall>p \<in> set entries. \<exists>b. is_dir (disk st) p = Inr b"
    using is_dir_entry [OF assms(2)] by blast
  from plugin_path_list_eq [OF this, of "[]"]
  have order: "plugin_path_list (disk st) entries [] = Inr ?order"
    by simp
  have first: "?order =
      c # filter (\<lambda>p. is_dir (disk st) p = Inr True \<and> name p \<noteq> ''Apple.Core'') entries"
    if "c \<in> set entries" "is_dir (disk st) c = Inr True" "name c = ''Apple.Core''" for c
    using filter_unique [OF names that(1), of "\<lambda>p. is_dir (disk st) p = Inr True"] that(2,3)
    by simp
  have rest: "filter (\<lambda>p. name p \<noteq> ''Apple.Core'') ?order =
      filter (\<lambda>p. is_dir (disk st) p = Inr True \<and> name p \<noteq> ''Apple.Core'') entries"
  proof -
    have "(\<lambda>x. name x \<noteq> ''Apple.Core'' \<and> is_dir (disk st) x = Inr True \<and>
              name x \<noteq> ''Apple.Core'') =
          (\<lambda>p. is_dir (disk st) p = Inr True \<and> name p \<noteq> ''Apple.Core'')"
      by auto
    then show ?thesis by simp
  qed
  let ?st = "gather_unity_installation_info (configure_native_build e args st)"
  have d: "disk ?st = disk st"
    by (simp add: gather_unity_installation_info_def emit_def disk_configure)
  have r: "plugin_root (CTX ?st) = plugin_root (CTX st)"
    by (simp add: gather_unity_installation_info_def emit_def CTX_configure)
  have p: "processed (trace ?st) = processed (trace st)"
    using processed_configure_native_build [of e args st]
    by (simp add: gather_unity_installation_info_def emit_def processed_append
          processed_Nil processed_Cons)
  have run: "build_native e args st =
      Returned (emit ValidateProjectVersions
        (emit (SectionHeading ''Update and Create Unity .meta Files'')
           (process_plugins ?order ?st)))"
    using assms(2,3) d r order by (simp add: build_native_def process_native_plugins_def)
  have "processed (trace (emit ValidateProjectVersions
        (emit (SectionHeading ''Update and Create Unity .meta Files'')
           (process_plugins ?order ?st)))) = processed (trace st) @ ?order"
    using p
    by (simp add: emit_def processed_append trace_process_plugins processed_map
          processed_Nil processed_Cons)
  with run order first rest show ?thesis by blast
qed

theorem C7_core_plugin_first_witness:
  "distinct (map fst example_disk) \<and>
   iterdir example_disk [''repo'', ''plug-ins''] =
     Inr [[''repo'', ''plug-ins'', ''Apple.GameKit''], [''repo'', ''plug-ins'', ''README.md''],
          [''repo'', ''plug-ins'', ''Apple.Core''], [''repo'', ''plug-ins'', ''Apple.PHASE'']] \<and>
   (\<exists>st'. build_native example_env example_args
            (initial (example_CTX\<lparr>build_actions := [(''build'', True), (''pack'', True)]\<rparr>)
               example_disk) = Returned st' \<and>
          processed (trace st') =
            [[''repo'', ''plug-ins'', ''Apple.Core''], [''repo'', ''plug-ins'', ''Apple.GameKit''],
             [''repo'', ''plug-ins'', ''Apple.PHASE'']])"
proof -
  let ?st = "initial (example_CTX\<lparr>build_actions := [(''build'', True), (''pack'', True)]\<rparr>)
               example_disk"
  let ?entries = "[[''repo'', ''plug-ins'', ''Apple.GameKit''], [''repo'', ''plug-ins'', ''README.md''],
          [''repo'', ''plug-ins'', ''Apple.Core''], [''repo'', ''plug-ins'', ''Apple.PHASE'']]"
  have d: "distinct (map fst example_disk)"
    by (simp add: example_disk_def)
  have i: "iterdir example_disk [''repo'', ''plug-ins''] = Inr ?entries"
    by code_simp
  have h1: "distinct (map fst (disk ?st))"
    using d by (simp add: initial_def)
  have h2: "iterdir (disk ?st) (plugin_root (CTX ?st)) = Inr ?entries"
    using i by (simp add: initial_def example_CTX_def)
  have h3: "getitem (build_actions (CTX ?st)) (BuildActionID_BUILD (ID example_env)) = Inr True"
    by (simp add: initial_def getitem_def example_env_def spec_ids_def)
  have "plugin_path_list example_disk ?entries [] =
      Inr [[''repo'', ''plug-ins'', ''Apple.Core''], [''repo'', ''plug-ins'', ''Apple.GameKit''],
           [''repo'', ''plug-ins'', ''Apple.PHASE'']]"
    by code_simp
  then have order: "plugin_path_list (disk ?st) ?entries [] =
      Inr [[''repo'', ''plug-ins'', ''Apple.Core''], [''repo'', ''plug-ins'', ''Apple.GameKit''],
           [''repo'', ''plug-ins'', ''Apple.PHASE'']]"
    by (simp add: initial_def)
  have none: "processed (trace ?st) = []"
    by (simp add: initial_def processed_Nil)
  from C7_core_plugin_first [OF h1 h2 h3, of example_args]
  obtain st' plugin_paths where "build_native example_env example_args ?st = Returned st'"
    and "plugin_path_list (disk ?st) ?entries [] = Inr plugin_paths"
    and "processed (trace st') = processed (trace ?st) @ plugin_paths"
    by blast
  then show ?thesis using d i order none by simp
qed

section \<open>Sentinels in the resolution of an axis\<close>

lemma every_member_key:
  "every_member d v \<Longrightarrow> k \<in> set (keys d) \<Longrightarrow> map_of d k = Some v"
  by (simp add: every_member_def list_all_iff)


lemma keys_empty_build_actions:
  "set (keys (empty_build_actions i)) = {BuildActionID_BUILD i, BuildActionID_PACK i}"
  by (simp add: empty_build_actions_def set_keys_dict)

lemma keys_empty_clean_actions:
  "set (keys (empty_clean_actions i)) =
     {CleanActionID_NATIVE i, CleanActionID_PACKAGES i, CleanActionID_TESTS i}"
  by (simp add: empty_clean_actions_def set_keys_dict)

lemma keys_empty_plugins:
  "set (keys (empty_plugins i)) =
     {PluginID_ACCESSIBILITY i, PluginID_CORE i, PluginID_CORE_HAPTICS i,
      PluginID_GAME_CONTROLLER i, PluginID_GAME_KIT i, PluginID_PHASE i}"
  by (simp add: empty_plugins_def set_keys_dict)


lemma resolve_build_actions_ALL:
  assumes "distinct_ids i" and "BuildActionID_NONE i \<notin> set pre"
  shows "resolve_build_actions i (pre @ BuildActionID_ALL i # post) =
           resolve_build_actions i (pre @ [BuildActionID_ALL i]) \<and>
         every_member (fst (resolve_build_actions i (pre @ BuildActionID_ALL i # post))) True"
proof -
  have k: "BuildActionID_ALL i \<notin> set (keys (empty_build_actions i))"
    using assms(1) by (auto simp: keys_empty_build_actions distinct_ids_def)
  from build_actions_loop_ALL [OF k assms(2), of post False "[]"]
  show ?thesis
    by (cases "build_actions_loop i (pre @ [BuildActionID_ALL i]) (empty_build_actions i) False []")
       (simp add: resolve_build_actions_def)
qed

lemma resolve_build_actions_NONE:
  assumes "distinct_ids i" and "BuildActionID_ALL i \<notin> set pre"
  shows "resolve_build_actions i (pre @ BuildActionID_NONE i # post) =
           resolve_build_actions i (pre @ [BuildActionID_NONE i]) \<and>
         every_member (fst (resolve_build_actions i (pre @ BuildActionID_NONE i # post))) False"
proof -
  have k: "BuildActionID_NONE i \<notin> set (keys (empty_build_actions i))"
    and n: "BuildActionID_ALL i \<noteq> BuildActionID_NONE i"
    using assms(1) by (auto simp: keys_empty_build_actions distinct_ids_def)
  from build_actions_loop_NONE [OF k assms(2) n, of post False "[]"]
  show ?thesis
    by (cases "build_actions_loop i (pre @ [BuildActionID_NONE i]) (empty_build_actions i) False []")
       (simp add: resolve_build_actions_def)
qed

lemma resolve_clean_actions_ALL:
  assumes "distinct_ids i" and "CleanActionID_NONE i \<notin> set pre"
  shows "resolve_clean_actions i (pre @ CleanActionID_ALL i # post) =
           resolve_clean_actions i (pre @ [CleanActionID_ALL i]) \<and>
         every_member (fst (resolve_clean_actions i (pre @ CleanActionID_ALL i # post))) True"
proof -
  have k: "CleanActionID_ALL i \<notin> set (keys (empty_clean_actions i))"
    using assms(1) by (auto simp: keys_empty_clean_actions distinct_ids_def)
  from clean_actions_loop_ALL [OF k assms(2), of post False "[]"]
  show ?thesis
    by (cases "clean_actions_loop i (pre @ [CleanActionID_ALL i]) (empty_clean_actions i) False []")
       (simp add: resolve_clean_actions_def)
qed

lemma resolve_clean_actions_NONE:
  assumes "distinct_ids i" and "CleanActionID_ALL i \<notin> set pre"
  shows "resolve_clean_actions i (pre @ CleanActionID_NONE i # post) =
           resolve_clean_actions i (pre @ [CleanActionID_NONE i]) \<and>
         every_member (fst (resolve_clean_actions i (pre @ CleanActionID_NONE i # post))) False"
proof -
  have k: "CleanActionID_NONE i \<notin> set (keys (empty_clean_actions i))"
    and n: "CleanActionID_ALL i \<noteq> CleanActionID_NONE i"
    using assms(1) by (auto simp: keys_empty_clean_actions distinct_ids_def)
  from clean_actions_loop_NONE [OF k assms(2) n, of post False "[]"]
  show ?thesis
    by (cases "clean_actions_loop i (pre @ [CleanActionID_NONE i]) (empty_clean_actions i) False []")
       (simp add: resolve_clean_actions_def)
qed

lemma resolve_platforms_ALL:
  "resolve_platforms i (pre @ PlatformID_ALL i # post) =
     resolve_platforms i (pre @ [PlatformID_ALL i]) \<and>
   every_member (fst (resolve_platforms i (pre @ PlatformID_ALL i # post))) True"
  using platforms_loop_ALL [of i pre post "empty_platforms i" False "[]"]
  by (cases "platforms_loop i (pre @ [PlatformID_ALL i]) (empty_platforms i) False []")
     (simp add: resolve_platforms_def)

lemma resolve_plugins_ALL:
  assumes "distinct_ids (ID e)"
  shows "resolve_plugins e (pre @ PluginID_ALL (ID e) # post) tests =
           resolve_plugins e (pre @ [PluginID_ALL (ID e)]) tests \<and>
         (\<exists>d out. resolve_plugins e (pre @ PluginID_ALL (ID e) # post) tests = Inr (d, out) \<and>
            every_member d True)"
proof -
  have k: "PluginID_ALL (ID e) \<notin> set (keys (empty_plugins (ID e)))"
    using assms by (auto simp: keys_empty_plugins distinct_ids_def)
  obtain d1 f out1 where loop:
    "plugins_loop (ID e) (pre @ [PluginID_ALL (ID e)]) (empty_plugins (ID e)) False [] = (d1, f, out1)"
    by (cases "plugins_loop (ID e) (pre @ [PluginID_ALL (ID e)]) (empty_plugins (ID e)) False []") auto
  from plugins_loop_ALL [OF k, of pre post False "[]"] loop
  have eq: "plugins_loop (ID e) (pre @ PluginID_ALL (ID e) # post) (empty_plugins (ID e)) False [] =
      (d1, f, out1)" and all: "every_member d1 True" and f: "f"
    by simp_all
  have "keys d1 = keys (empty_plugins (ID e))"
    using plugins_loop_keys [of "ID e" "pre @ [PluginID_ALL (ID e)]" "empty_plugins (ID e)" False "[]"]
      loop by simp
  then have "PluginID_CORE (ID e) \<in> set (keys d1)"
    by (simp add: CORE_in_empty_plugins)
  then have "getitem d1 (PluginID_CORE (ID e)) = Inr True"
    using every_member_key [OF all] by (simp add: getitem_def)
  then show ?thesis
    using loop eq all f by (simp add: resolve_plugins_def)
qed

lemma platforms_loop_keys:
  "keys (fst (platforms_loop i ts d found out)) = keys d"
  by (induction i ts d found out rule: platforms_loop.induct)
     (simp_all add: contains_iff keys_setitem keys_set_all)

lemma keys_empty_platforms:
  "set (keys (empty_platforms i)) = {PlatformID_IOS i, PlatformID_MACOS i, PlatformID_TVOS i}"
  by (simp add: empty_platforms_def set_keys_dict)

lemma keys_resolve_build_actions:
  "set (keys (fst (resolve_build_actions i ts))) = {BuildActionID_BUILD i, BuildActionID_PACK i}"
  using build_actions_loop_keys [of i ts "empty_build_actions i" False "[]"]
  by (cases "build_actions_loop i ts (empty_build_actions i) False []")
     (simp add: resolve_build_actions_def keys_set_all keys_empty_build_actions)

lemma keys_resolve_platforms:
  "set (keys (fst (resolve_platforms i ts))) =
     {PlatformID_IOS i, PlatformID_MACOS i, PlatformID_TVOS i}"
  using platforms_loop_keys [of i ts "empty_platforms i" False "[]"]
  by (cases "platforms_loop i ts (empty_platforms i) False []")
     (simp add: resolve_platforms_def keys_set_all keys_empty_platforms)

lemma keys_resolve_clean_actions:
  "set (keys (fst (resolve_clean_actions i ts))) =
     {CleanActionID_NATIVE i, CleanActionID_PACKAGES i, CleanActionID_TESTS i}"
  using clean_actions_loop_keys [of i ts "empty_clean_actions i" False "[]"]
  by (cases "clean_actions_loop i ts (empty_clean_actions i) False []")
     (simp add: resolve_clean_actions_def keys_set_all keys_empty_clean_actions)

lemma keys_resolve_plugins:
  assumes "resolve_plugins e ts tests = Inr (d, out)"
  shows "set (keys d) =
     {PluginID_ACCESSIBILITY (ID e), PluginID_CORE (ID e), PluginID_CORE_HAPTICS (ID e),
      PluginID_GAME_CONTROLLER (ID e), PluginID_GAME_KIT (ID e), PluginID_PHASE (ID e)}"
proof -
  obtain d1 f out1 where loop:
    "plugins_loop (ID e) ts (empty_plugins (ID e)) False [] = (d1, f, out1)"
    by (cases "plugins_loop (ID e) ts (empty_plugins (ID e)) False []") auto
  have k: "set (keys d1) = set (keys (empty_plugins (ID e)))"
    using plugins_loop_keys [of "ID e" ts "empty_plugins (ID e)" False "[]"] loop by simp
  have c: "set (keys (setitem d1 (PluginID_CORE (ID e)) True)) = set (keys (empty_plugins (ID e)))"
    using CORE_in_empty_plugins [of "ID e"] k by (simp add: set_keys_setitem insert_absorb)
  obtain core where core: "(if tests then getitem d1 (PluginID_CORE (ID e)) else Inr True) = Inr core"
    using assms loop
    by (cases "if tests then getitem d1 (PluginID_CORE (ID e)) else Inr True")
       (simp_all add: resolve_plugins_def)
  have "d = d1 \<or> d = setitem d1 (PluginID_CORE (ID e)) True \<or> d = set_all d1 True \<or>
        d = set_all (setitem d1 (PluginID_CORE (ID e)) True) True"
  proof (cases "tests \<and> \<not> core")
    case True
    then show ?thesis
      using assms loop core by (cases f) (simp_all add: resolve_plugins_def)
  next
    case False
    then have "(if tests \<and> \<not> core
          then (setitem d1 (PluginID_CORE (ID e)) True, out1 @ core_not_selected e)
          else (d1, out1)) = (d1, out1)"
      by auto
    then show ?thesis
      using assms loop core by (cases f) (simp_all add: resolve_plugins_def)
  qed
  then have "set (keys d) = set (keys (empty_plugins (ID e)))"
    using k c by (auto simp: keys_set_all)
  then show ?thesis by (simp add: keys_empty_plugins)
qed

lemma distinct_spec_ids: "distinct_ids spec_ids"
  by (simp add: distinct_ids_def spec_ids_def)

text \<open>
  C6. When the identifiers of a class are pairwise different and a token list contains the
  \<open>ALL\<close> sentinel with no \<open>NONE\<close> sentinel before it (on the axes that have one), the
  resolution of the axis sets every member to true, marks the axis valid, and gives the
  same result as the list cut after the \<open>ALL\<close> sentinel: the remaining tokens are ignored.
\<close>

theorem C6_all_sentinel:
  assumes "distinct_ids (ID e)"
  shows "(resolve_plugins e (pre @ PluginID_ALL (ID e) # post) tests =
            resolve_plugins e (pre @ [PluginID_ALL (ID e)]) tests \<and>
          (\<exists>d out. resolve_plugins e (pre @ PluginID_ALL (ID e) # post) tests = Inr (d, out) \<and>
             every_member d True \<and>
             set (keys d) =
               {PluginID_ACCESSIBILITY (ID e), PluginID_CORE (ID e), PluginID_CORE_HAPTICS (ID e),
                PluginID_GAME_CONTROLLER (ID e), PluginID_GAME_KIT (ID e),
                PluginID_PHASE (ID e)}) \<and>
          fst (snd (plugins_loop (ID e) (pre @ PluginID_ALL (ID e) # post)
                      (empty_plugins (ID e)) False []))) \<and>
         (resolve_platforms (ID e) (pre @ PlatformID_ALL (ID e) # post) =
            resolve_platforms (ID e) (pre @ [PlatformID_ALL (ID e)]) \<and>
          every_member (fst (resolve_platforms (ID e) (pre @ PlatformID_ALL (ID e) # post))) True \<and>
          set (keys (fst (resolve_platforms (ID e) (pre @ PlatformID_ALL (ID e) # post)))) =
            {PlatformID_IOS (ID e), PlatformID_MACOS (ID e), PlatformID_TVOS (ID e)} \<and>
          fst (snd (platforms_loop (ID e) (pre @ PlatformID_ALL (ID e) # post)
                      (empty_platforms (ID e)) False []))) \<and>
         (BuildActionID_NONE (ID e) \<notin> set pre \<longrightarrow>
          resolve_build_actions (ID e) (pre @ BuildActionID_ALL (ID e) # post) =
            resolve_build_actions (ID e) (pre @ [BuildActionID_ALL (ID e)]) \<and>
          every_member
            (fst (resolve_build_actions (ID e) (pre @ BuildActionID_ALL (ID e) # post))) True \<and>
          set (keys (fst (resolve_build_actions (ID e) (pre @ BuildActionID_ALL (ID e) # post)))) =
            {BuildActionID_BUILD (ID e), BuildActionID_PACK (ID e)} \<and>
          fst (snd (build_actions_loop (ID e) (pre @ BuildActionID_ALL (ID e) # post)
                      (empty_build_actions (ID e)) False []))) \<and>
         (CleanActionID_NONE (ID e) \<notin> set pre \<longrightarrow>
          resolve_clean_actions (ID e) (pre @ CleanActionID_ALL (ID e) # post) =
            resolve_clean_actions (ID e) (pre @ [CleanActionID_ALL (ID e)]) \<and>
          every_member
            (fst (resolve_clean_actions (ID e) (pre @ CleanActionID_ALL (ID e) # post))) True \<and>
          set (keys (fst (resolve_clean_actions (ID e) (pre @ CleanActionID_ALL (ID e) # post)))) =
            {CleanActionID_NATIVE (ID e), CleanActionID_PACKAGES (ID e),
             CleanActionID_TESTS (ID e)} \<and>
          fst (snd (clean_actions_loop (ID e) (pre @ CleanActionID_ALL (ID e) # post)
                      (empty_clean_actions (ID e)) False [])))"
proof -
  have p: "PluginID_ALL (ID e) \<notin> set (keys (empty_plugins (ID e)))"
    and b: "BuildActionID_ALL (ID e) \<notin> set (keys (empty_build_actions (ID e)))"
    and c: "CleanActionID_ALL (ID e) \<notin> set (keys (empty_clean_actions (ID e)))"
    using assms
    by (auto simp: keys_empty_plugins keys_empty_build_actions keys_empty_clean_actions
          distinct_ids_def)
  have plugins: "fst (snd (plugins_loop (ID e) (pre @ PluginID_ALL (ID e) # post)
                      (empty_plugins (ID e)) False []))"
    using plugins_loop_ALL [OF p, of pre post False "[]"] by simp
  have platforms: "fst (snd (platforms_loop (ID e) (pre @ PlatformID_ALL (ID e) # post)
                      (empty_platforms (ID e)) False []))"
    using platforms_loop_ALL [of "ID e" pre post "empty_platforms (ID e)" False "[]"] by simp
  have build: "fst (snd (build_actions_loop (ID e) (pre @ BuildActionID_ALL (ID e) # post)
                      (empty_build_actions (ID e)) False []))"
    if "BuildActionID_NONE (ID e) \<notin> set pre"
    using build_actions_loop_ALL [OF b that, of post False "[]"] by simp
  have clean: "fst (snd (clean_actions_loop (ID e) (pre @ CleanActionID_ALL (ID e) # post)
                      (empty_clean_actions (ID e)) False []))"
    if "CleanActionID_NONE (ID e) \<notin> set pre"
    using clean_actions_loop_ALL [OF c that, of post False "[]"] by simp
  have pk: "\<exists>d out. resolve_plugins e (pre @ PluginID_ALL (ID e) # post) tests = Inr (d, out) \<and>
      every_member d True \<and>
      set (keys d) =
        {PluginID_ACCESSIBILITY (ID e), PluginID_CORE (ID e), PluginID_CORE_HAPTICS (ID e),
         PluginID_GAME_CONTROLLER (ID e), PluginID_GAME_KIT (ID e), PluginID_PHASE (ID e)}"
    using resolve_plugins_ALL [OF assms, of pre post tests]
      keys_resolve_plugins [of e "pre @ PluginID_ALL (ID e) # post" tests]
    by blast
  show ?thesis
    using resolve_plugins_ALL [OF assms, of pre post tests] plugins pk
      resolve_platforms_ALL [of "ID e" pre post] platforms
      resolve_build_actions_ALL [OF assms, of pre post] build
      resolve_clean_actions_ALL [OF assms, of pre post] clean
      keys_resolve_platforms [of "ID e" "pre @ PlatformID_ALL (ID e) # post"]
      keys_resolve_build_actions [of "ID e" "pre @ BuildActionID_ALL (ID e) # post"]
      keys_resolve_clean_actions [of "ID e" "pre @ CleanActionID_ALL (ID e) # post"]
    by blast
qed

theorem C6_all_sentinel_witness:
  "distinct_ids (ID example_env) \<and>
   BuildActionID_NONE (ID example_env) \<notin> set [''pack'', ''bogus''] \<and>
   CleanActionID_NONE (ID example_env) \<notin> set [''pack'', ''bogus''] \<and>
   (\<exists>d out. resolve_plugins example_env [''pack'', ''bogus'', ''ALL'', ''NONE'', ''core''] False =
      Inr (d, out) \<and> every_member d True) \<and>
   every_member (fst (resolve_platforms spec_ids [''pack'', ''bogus'', ''ALL'', ''NONE'', ''core'']))
     True \<and>
   every_member
     (fst (resolve_build_actions spec_ids [''pack'', ''bogus'', ''ALL'', ''NONE'', ''core''])) True \<and>
   resolve_build_actions spec_ids [''pack'', ''bogus'', ''ALL'', ''NONE'', ''core''] =
     resolve_build_actions spec_ids [''pack'', ''bogus'', ''ALL''] \<and>
   every_member
     (fst (resolve_clean_actions spec_ids [''pack'', ''bogus'', ''ALL'', ''NONE'', ''core''])) True"
proof -
  have h: "distinct_ids (ID example_env)"
    using distinct_spec_ids by (simp add: example_env_def)
  have n: "BuildActionID_NONE (ID example_env) \<notin> set [''pack'', ''bogus'']"
      "CleanActionID_NONE (ID example_env) \<notin> set [''pack'', ''bogus'']"
    by (simp_all add: example_env_def spec_ids_def)
  have i: "ID example_env = spec_ids"
      "PluginID_ALL spec_ids = ''ALL''" "PlatformID_ALL spec_ids = ''ALL''"
      "BuildActionID_ALL spec_ids = ''ALL''" "CleanActionID_ALL spec_ids = ''ALL''"
    by (simp_all add: example_env_def spec_ids_def)
  note t = C6_all_sentinel [OF h, of "[''pack'', ''bogus'']" "[''NONE'', ''core'']" False,
      unfolded i append.simps]
  show ?thesis
    using h n t unfolding i by blast
qed

text \<open>
  C2. On an axis with both sentinels (build actions, clean actions) the first sentinel of
  the token list decides: the list \<open>[member1, NONE, ALL]\<close> yields every member false, since
  \<open>NONE\<close> is its first sentinel, and so does \<open>[NONE, member1]\<close>; in general the result is
  that of the list cut after its first sentinel, every member true for \<open>ALL\<close> and every
  member false for \<open>NONE\<close>. The statement that \<open>[member1, NONE, ALL]\<close> yields every member
  true fails on the build actions.
\<close>

theorem C2_first_sentinel_wins:
  assumes "distinct_ids i"
  shows "set (keys (fst (resolve_build_actions i tokens))) =
           {BuildActionID_BUILD i, BuildActionID_PACK i} \<and>
         set (keys (fst (resolve_clean_actions i tokens))) =
           {CleanActionID_NATIVE i, CleanActionID_PACKAGES i, CleanActionID_TESTS i} \<and>
         (member1 \<in> set (keys (empty_build_actions i)) \<longrightarrow>
          every_member (fst (resolve_build_actions i
             [member1, BuildActionID_NONE i, BuildActionID_ALL i])) False \<and>
          every_member (fst (resolve_build_actions i [BuildActionID_NONE i, member1])) False) \<and>
         (member1 \<in> set (keys (empty_clean_actions i)) \<longrightarrow>
          every_member (fst (resolve_clean_actions i
             [member1, CleanActionID_NONE i, CleanActionID_ALL i])) False \<and>
          every_member (fst (resolve_clean_actions i [CleanActionID_NONE i, member1])) False) \<and>
         (BuildActionID_ALL i \<notin> set pre \<and> BuildActionID_NONE i \<notin> set pre \<longrightarrow>
          resolve_build_actions i (pre @ BuildActionID_ALL i # post) =
            resolve_build_actions i (pre @ [BuildActionID_ALL i]) \<and>
          every_member (fst (resolve_build_actions i (pre @ BuildActionID_ALL i # post))) True \<and>
          resolve_build_actions i (pre @ BuildActionID_NONE i # post) =
            resolve_build_actions i (pre @ [BuildActionID_NONE i]) \<and>
          every_member (fst (resolve_build_actions i (pre @ BuildActionID_NONE i # post))) False) \<and>
         (CleanActionID_ALL i \<notin> set pre \<and> CleanActionID_NONE i \<notin> set pre \<longrightarrow>
          resolve_clean_actions i (pre @ CleanActionID_ALL i # post) =
            resolve_clean_actions i (pre @ [CleanActionID_ALL i]) \<and>
          every_member (fst (resolve_clean_actions i (pre @ CleanActionID_ALL i # post))) True \<and>
          resolve_clean_actions i (pre @ CleanActionID_NONE i # post) =
            resolve_clean_actions i (pre @ [CleanActionID_NONE i]) \<and>
          every_member (fst (resolve_clean_actions i (pre @ CleanActionID_NONE i # post))) False)"
proof -
  have b1: "every_member (fst (resolve_build_actions i
             [member1, BuildActionID_NONE i, BuildActionID_ALL i])) False"
    if "member1 \<in> set (keys (empty_build_actions i))"
  proof -
    have "BuildActionID_ALL i \<notin> set [member1]"
      using that assms by (auto simp: keys_empty_build_actions distinct_ids_def)
    from resolve_build_actions_NONE [OF assms this, of "[BuildActionID_ALL i]", THEN conjunct2]
    show ?thesis by (simp only: append.simps)
  qed
  have b2: "every_member (fst (resolve_build_actions i [BuildActionID_NONE i, member1])) False"
    using resolve_build_actions_NONE [OF assms, of "[]" "[member1]", THEN conjunct2]
    by (simp only: append.simps set_simps empty_iff not_False_eq_True)
  have c1: "every_member (fst (resolve_clean_actions i
             [member1, CleanActionID_NONE i, CleanActionID_ALL i])) False"
    if "member1 \<in> set (keys (empty_clean_actions i))"
  proof -
    have "CleanActionID_ALL i \<notin> set [member1]"
      using that assms by (auto simp: keys_empty_clean_actions distinct_ids_def)
    from resolve_clean_actions_NONE [OF assms this, of "[CleanActionID_ALL i]", THEN conjunct2]
    show ?thesis by (simp only: append.simps)
  qed
  have c2: "every_member (fst (resolve_clean_actions i [CleanActionID_NONE i, member1])) False"
    using resolve_clean_actions_NONE [OF assms, of "[]" "[member1]", THEN conjunct2]
    by (simp only: append.simps set_simps empty_iff not_False_eq_True)
  show ?thesis
    using b1 b2 c1 c2 keys_resolve_build_actions [of i tokens]
      keys_resolve_clean_actions [of i tokens]
      resolve_build_actions_ALL [OF assms, of pre post]
      resolve_build_actions_NONE [OF assms, of pre post]
      resolve_clean_actions_ALL [OF assms, of pre post]
      resolve_clean_actions_NONE [OF assms, of pre post]
    by blast
qed

theorem C2_first_sentinel_wins_witness:
  "distinct_ids spec_ids \<and>
   ''build'' \<in> set (keys (empty_build_actions spec_ids)) \<and>
   every_member (fst (resolve_build_actions spec_ids [''build'', ''NONE'', ''ALL''])) False \<and>
   every_member (fst (resolve_build_actions spec_ids [''NONE'', ''build''])) False \<and>
   BuildActionID_ALL spec_ids \<notin> set [''build'', ''bogus''] \<and>
   BuildActionID_NONE spec_ids \<notin> set [''build'', ''bogus''] \<and>
   every_member (fst (resolve_build_actions spec_ids [''build'', ''bogus'', ''ALL'', ''NONE''])) True \<and>
   every_member (fst (resolve_build_actions spec_ids [''build'', ''bogus'', ''NONE'', ''ALL''])) False"
proof -
  have i: "BuildActionID_ALL spec_ids = ''ALL''" "BuildActionID_NONE spec_ids = ''NONE''"
      "CleanActionID_ALL spec_ids = ''ALL''" "CleanActionID_NONE spec_ids = ''NONE''"
    by (simp_all add: spec_ids_def)
  have m: "''build'' \<in> set (keys (empty_build_actions spec_ids))"
    by (simp add: keys_empty_build_actions spec_ids_def)
  have n: "BuildActionID_ALL spec_ids \<notin> set [''build'', ''bogus'']"
      "BuildActionID_NONE spec_ids \<notin> set [''build'', ''bogus'']"
    by (simp_all add: spec_ids_def)
  note t1 = C2_first_sentinel_wins [OF distinct_spec_ids, of "[]" "''build''"
      "[''build'', ''bogus'']" "[''NONE'']", unfolded i append.simps]
  note t2 = C2_first_sentinel_wins [OF distinct_spec_ids, of "[]" "''build''"
      "[''build'', ''bogus'']" "[''ALL'']", unfolded i append.simps]
  show ?thesis
    using distinct_spec_ids m n t1 t2 unfolding i by blast
qed

theorem C2_counterexample:
  "\<not> every_member (fst (resolve_build_actions spec_ids
        [BuildActionID_BUILD spec_ids, BuildActionID_NONE spec_ids, BuildActionID_ALL spec_ids]))
      True"
  by code_simp

section \<open>Finalization of the plug-in selection\<close>

















section \<open>Unrecognized tokens\<close>







section \<open>Tests and packages without a native build\<close>

text \<open>
  When the build action is not selected, lines 316 to 319 are skipped and the local
  \<open>unity_plugin_manager\<close> stays unbound, so that the first of lines 342 and 346 that is
  reached raises \<open>UnboundLocalError\<close> instead of calling the plug-in manager.
\<close>

lemma build_skipped_leaves_manager_unbound:
  assumes "getitem (build_actions (CTX st)) (BuildActionID_BUILD (ID e)) = Inr False"
    and "\<not> unity_plugin_manager st"
  shows "build_tests (CTX st) \<longrightarrow>
           seq (build_native e args st) build_unity_tests =
             Raised UnboundLocalError (emit (SectionHeading ''Build Unity Tests'') st)"
    and "\<not> build_tests (CTX st) \<longrightarrow>
           getitem (build_actions (CTX st)) (BuildActionID_PACK (ID e)) = Inr True \<longrightarrow>
           seq (seq (build_native e args st) build_unity_tests) (create_packages e) =
             Raised UnboundLocalError (emit (SectionHeading ''Create Plug-In Packages'') st)"
  using assms
  by (simp_all add: build_native_def build_unity_tests_def create_packages_def seq_def emit_def)

text \<open>
  C1. The claim is that \<open>BuildTests\<close> is invoked whenever tests are requested and
  \<open>GeneratePlugInPackages\<close> whenever the pack action is enabled, whether or not the build
  action ran. On the run with the build actions \<open>pack\<close> alone, and on the run with the
  build actions \<open>NONE\<close> and tests requested, \<open>Main\<close> raises \<open>UnboundLocalError\<close> and the
  plug-in manager is not called.
\<close>

theorem C1_tests_and_packages_without_build:
  "raised (Main example_env (example_args\<lparr>args_build_actions := [''pack'']\<rparr>)
             example_CTX example_disk) = Some UnboundLocalError \<and>
   \<not> invoked GeneratePlugInPackages
       (Main example_env (example_args\<lparr>args_build_actions := [''pack'']\<rparr>)
          example_CTX example_disk) \<and>
   raised (Main example_env
             (example_args\<lparr>args_build_actions := [''NONE''], args_build_tests := True\<rparr>)
             example_CTX example_disk) = Some UnboundLocalError \<and>
   \<not> invoked BuildTests
       (Main example_env
          (example_args\<lparr>args_build_actions := [''NONE''], args_build_tests := True\<rparr>)
          example_CTX example_disk)"
  by code_simp

section \<open>The folders of a test build\<close>

text \<open>
  C3. The claim is that the test output root, also one given with \<open>-to\<close>, is created when
  missing and that the time-stamped folder is created below that same root. Lines 291 and
  297 use \<open>CTX.test_build_root\<close>, which \<open>Main\<close> never sets from the command line, while line
  294 creates the path given on the command line. With \<open>-to /out\<close> and an existing default
  root, \<open>/out\<close> is not created and the time-stamped folder is created below the default
  root; with a missing default root, \<open>/out\<close> is created and the creation of the time-stamped
  folder below the default root raises \<open>FileNotFoundError\<close>.
\<close>

theorem C3_test_output_path_not_used:
  "raised (Main example_env
             (example_args\<lparr>args_build_tests := True, args_test_output_path := [''out'']\<rparr>)
             example_CTX example_disk) = None \<and>
   exists (disk (final_state (Main example_env
             (example_args\<lparr>args_build_tests := True, args_test_output_path := [''out'']\<rparr>)
             example_CTX example_disk))) [''out''] = Inr False \<and>
   test_build_output_path (CTX (final_state (Main example_env
             (example_args\<lparr>args_build_tests := True, args_test_output_path := [''out'']\<rparr>)
             example_CTX example_disk))) =
     [''repo'', ''TestBuilds'', ''TestBuild_2026-11-04_02-25-07''] \<and>
   is_dir (disk (final_state (Main example_env
             (example_args\<lparr>args_build_tests := True, args_test_output_path := [''out'']\<rparr>)
             example_CTX example_disk)))
     [''repo'', ''TestBuilds'', ''TestBuild_2026-11-04_02-25-07''] = Inr True \<and>
   raised (Main example_env
             (example_args\<lparr>args_build_tests := True, args_test_output_path := [''out'']\<rparr>)
             (example_CTX\<lparr>test_build_root := [''repo'', ''Tests'']\<rparr>) example_disk) =
     Some FileNotFoundError \<and>
   is_dir (disk (final_state (Main example_env
             (example_args\<lparr>args_build_tests := True, args_test_output_path := [''out'']\<rparr>)
             (example_CTX\<lparr>test_build_root := [''repo'', ''Tests'']\<rparr>) example_disk))) [''out''] =
     Inr True \<and>
   exists (disk (final_state (Main example_env
             (example_args\<lparr>args_build_tests := True, args_test_output_path := [''out'']\<rparr>)
             (example_CTX\<lparr>test_build_root := [''repo'', ''Tests'']\<rparr>) example_disk)))
     [''out'', ''TestBuild_2026-11-04_02-25-07''] = Inr False"
  by code_simp

end
